theory Spec2Isabelle
  imports Main
begin

section \<open>Python strings and JSON values\<close>

text \<open>
  A Python \<open>str\<close> is a sequence of Unicode code points; a code point is a natural
  number. String literals of the sources are written \<open>U ''...''\<close>.
\<close>

type_synonym ustr = "nat list"

abbreviation U :: "string \<Rightarrow> ustr" where
  "U s \<equiv> map (of_char :: char \<Rightarrow> nat) s"

abbreviation newline :: nat where "newline \<equiv> 10"
abbreviation hyphen :: nat where "hyphen \<equiv> 45"
abbreviation underscore :: nat where "underscore \<equiv> 95"
abbreviation slash :: nat where "slash \<equiv> 47"

text \<open>
  What \<open>json.load\<close> returns. A decoded object is the association list of its dict in
  insertion order (\<open>json.load\<close> keeps one value per key); JSON numbers are integers
  here.
\<close>

datatype json =
    JNull
  | JBool bool
  | JNum int
  | JStr ustr
  | JArr "json list"
  | JObj "(ustr \<times> json) list"

text \<open>
  The two parts of the Python runtime that the scripts use and that are tables or
  printers of the interpreter, not code of the scripts: \<open>uni_alnum\<close> is
  \<open>str.isalnum\<close> on the code points from 128 on, \<open>py_str\<close> is \<open>str()\<close> of a decoded
  JSON value that is not a string.
\<close>

record runtime =
  uni_alnum :: "nat \<Rightarrow> bool"
  py_str :: "json \<Rightarrow> ustr"

text \<open>
  The exceptions that leave a function: the three that the statements of the scripts
  raise on a decoded value, and \<open>UncaughtError\<close> for an exception of \<open>subprocess.run\<close>
  that no handler of the function catches.
\<close>

datatype py_error = KeyError | TypeError | AttributeError | UncaughtError

text \<open>
  A runtime for evaluating the scripts on concrete inputs whose strings are ASCII and
  whose formatted values are strings: on such inputs neither field is consulted.
\<close>

definition ascii_runtime :: runtime where
  "ascii_runtime = \<lparr>uni_alnum = (\<lambda>c. False), py_str = (\<lambda>v. [])\<rparr>"

section \<open>Character classes of the regular expressions\<close>

text \<open>\<open>\s\<close> of a \<open>str\<close> pattern and the characters \<open>str.strip()\<close> removes: Unicode whitespace.\<close>

definition is_space :: "nat \<Rightarrow> bool" where
  "is_space c \<longleftrightarrow>
     (9 \<le> c \<and> c \<le> 13) \<or> (28 \<le> c \<and> c \<le> 32) \<or> c = 133 \<or> c = 160 \<or> c = 5760 \<or>
     (8192 \<le> c \<and> c \<le> 8202) \<or> c = 8232 \<or> c = 8233 \<or> c = 8239 \<or> c = 8287 \<or> c = 12288"

definition ascii_alnum :: "nat \<Rightarrow> bool" where
  "ascii_alnum c \<longleftrightarrow> (48 \<le> c \<and> c \<le> 57) \<or> (65 \<le> c \<and> c \<le> 90) \<or> (97 \<le> c \<and> c \<le> 122)"

text \<open>\<open>\w\<close> of a \<open>str\<close> pattern: alphanumeric or underscore.\<close>

definition is_word :: "runtime \<Rightarrow> nat \<Rightarrow> bool" where
  "is_word rt c \<longleftrightarrow> (if c < 128 then ascii_alnum c else uni_alnum rt c) \<or> c = underscore"

text \<open>The class \<open>[-\s]\<close>.\<close>

definition is_sep :: "nat \<Rightarrow> bool" where
  "is_sep c \<longleftrightarrow> c = hyphen \<or> is_space c"

section \<open>Filename sanitization\<close>

text \<open>\<open>re.sub(r'[^\w\s-]', '', title)\<close>\<close>

definition strip_bad :: "runtime \<Rightarrow> ustr \<Rightarrow> ustr" where
  "strip_bad rt title = filter (\<lambda>c. is_word rt c \<or> is_space c \<or> c = hyphen) title"

text \<open>\<open>s.strip()\<close>\<close>

definition strip :: "ustr \<Rightarrow> ustr" where
  "strip s = rev (dropWhile is_space (rev (dropWhile is_space s)))"

text \<open>\<open>re.sub(r'[-\s]+', '-', s)\<close>: every maximal run of the class becomes one hyphen.\<close>

function collapse :: "ustr \<Rightarrow> ustr" where
  "collapse [] = []"
| "collapse (c # cs) =
     (if is_sep c then hyphen # collapse (dropWhile is_sep cs) else c # collapse cs)"
  by pat_completeness auto
termination
  by (relation "measure length") (auto simp: length_dropWhile_le less_Suc_eq_le)

text \<open>
  The two statements that every script repeats:
  \<^verbatim>\<open>safe_title = re.sub(r'[^\w\s-]', '', title).strip()\<close>
  \<^verbatim>\<open>safe_title = re.sub(r'[-\s]+', '-', safe_title)\<close>
\<close>

definition safe_title :: "runtime \<Rightarrow> ustr \<Rightarrow> ustr" where
  "safe_title rt title = collapse (strip (strip_bad rt title))"


section \<open>Python built-ins used by the scripts\<close>

text \<open>\<open>str(i)\<close> of a non-negative integer.\<close>

function dec :: "nat \<Rightarrow> ustr" where
  "dec n = (if n < 10 then [48 + n] else dec (n div 10) @ [48 + n mod 10])"
  by pat_completeness auto
termination
  by (relation "measure id") auto

declare dec.simps [simp del]

text \<open>The format \<open>{i:03d}\<close>: decimal, padded with zeros to three characters.\<close>

definition fmt03d :: "nat \<Rightarrow> ustr" where
  "fmt03d i = replicate (3 - length (dec i)) 48 @ dec i"

text \<open>Truth value of a decoded value (\<open>if x:\<close>, \<open>not x\<close>).\<close>

fun truthy :: "json \<Rightarrow> bool" where
  "truthy JNull = False"
| "truthy (JBool b) = b"
| "truthy (JNum n) = (n \<noteq> 0)"
| "truthy (JStr s) = (s \<noteq> [])"
| "truthy (JArr xs) = (xs \<noteq> [])"
| "truthy (JObj d) = (d \<noteq> [])"

text \<open>\<open>d.get(k, default)\<close> on a dict.\<close>

definition dict_get :: "(ustr \<times> json) list \<Rightarrow> ustr \<Rightarrow> json \<Rightarrow> json" where
  "dict_get d k dflt = (case map_of d k of Some v \<Rightarrow> v | None \<Rightarrow> dflt)"

text \<open>\<open>x.get(k, default)\<close> on any decoded value: only a dict has \<open>get\<close>.\<close>

fun get :: "json \<Rightarrow> ustr \<Rightarrow> json \<Rightarrow> py_error + json" where
  "get (JObj d) k dflt = Inr (dict_get d k dflt)"
| "get _ k dflt = Inl AttributeError"

text \<open>\<open>x[k]\<close> with a string key.\<close>

fun subscript :: "json \<Rightarrow> ustr \<Rightarrow> py_error + json" where
  "subscript (JObj d) k = (case map_of d k of Some v \<Rightarrow> Inr v | None \<Rightarrow> Inl KeyError)"
| "subscript _ k = Inl TypeError"

text \<open>
  The items that \<open>len(x)\<close>, \<open>for item in x\<close> and \<open>enumerate(x, 1)\<close> see: a list gives its
  elements, a dict its keys, a string its characters; the other values raise.
\<close>

fun py_iter :: "json \<Rightarrow> py_error + json list" where
  "py_iter (JArr xs) = Inr xs"
| "py_iter (JObj d) = Inr (map (\<lambda>kv. JStr (fst kv)) d)"
| "py_iter (JStr s) = Inr (map (\<lambda>c. JStr [c]) s)"
| "py_iter _ = Inl TypeError"

text \<open>The subject of \<open>re.sub\<close> must be a string.\<close>

fun re_subject :: "json \<Rightarrow> py_error + ustr" where
  "re_subject (JStr s) = Inr s"
| "re_subject _ = Inl TypeError"

text \<open>A value inside an f-string: \<open>f"{x}"\<close>.\<close>

fun format :: "runtime \<Rightarrow> json \<Rightarrow> ustr" where
  "format rt (JStr s) = s"
| "format rt v = py_str rt v"

text \<open>\<open>os.path.join(a, b)\<close> and \<open>os.path.basename(p)\<close> of \<open>posixpath\<close>.\<close>

definition path_join :: "ustr \<Rightarrow> ustr \<Rightarrow> ustr" where
  "path_join a b =
     (if b \<noteq> [] \<and> hd b = slash then b
      else if a = [] \<or> last a = slash then a @ b
      else a @ [slash] @ b)"

definition basename :: "ustr \<Rightarrow> ustr" where
  "basename p = rev (takeWhile (\<lambda>c. c \<noteq> slash) (rev p))"

definition unlines :: "ustr list \<Rightarrow> ustr" where
  "unlines ls = concat (map (\<lambda>l. l @ [newline]) ls)"

section \<open>The environment and the trace of a run\<close>

text \<open>
  A file of the working directory, as \<open>open\<close> and \<open>json.load\<close> find it: \<open>Missing\<close> when it
  does not exist (\<open>FileNotFoundError\<close>), \<open>Malformed\<close> when \<open>json.load\<close> raises
  \<open>JSONDecodeError\<close>, \<open>Unreadable\<close> when reading it raises any other exception
  (\<open>UnicodeDecodeError\<close>, \<open>RecursionError\<close>, \<open>PermissionError\<close>, ...), which no handler of
  the scripts names, and \<open>Decoded\<close> with the value otherwise.
\<close>

datatype file_state = Missing | Malformed | Unreadable | Decoded json

type_synonym files = "ustr \<Rightarrow> file_state"

text \<open>
  What \<open>subprocess.run\<close> does with a command: the process exits with a return code, the
  timeout expires (\<open>TimeoutExpired\<close>), the program is not found (\<open>FileNotFoundError\<close>),
  or another exception is raised.
\<close>

datatype outcome = Exited int | TimedOut | NotFound | OtherError

text \<open>
  The trace keeps the effects that the properties are about: the files written, the
  commands handed to \<open>subprocess.run\<close> with their timeout, the pauses, and the
  \<open>print\<close> statements that report how a stage ended (their text without the leading
  symbol) or its counters. The other \<open>print\<close> statements and \<open>os.makedirs\<close> are left
  out. A function that an exception leaves is \<open>Inl\<close> of the exception: the result tells
  that it did not return, not what it had done before.
\<close>

datatype event =
    Print ustr
  | WriteFile ustr ustr
  | Run "ustr list" "nat option"
  | Sleep nat
  | SleepUniform nat nat
  | Summary nat nat

text \<open>
  The body of \<open>with open(input_file, 'w') as f: for i, video in enumerate(videos, 1): ...\<close>
  run over the records; \<open>f\<close> is the text written so far.
\<close>

fun write_loop :: "(nat \<Rightarrow> json \<Rightarrow> py_error + ustr) \<Rightarrow> nat \<Rightarrow> json list \<Rightarrow> ustr \<Rightarrow> py_error + ustr" where
  "write_loop body i [] f = Inr f"
| "write_loop body i (video # videos) f =
     (case body i video of
        Inl e \<Rightarrow> Inl e
      | Inr written \<Rightarrow> write_loop body (Suc i) videos (f @ written))"


section \<open>QUICK_START.py\<close>

text \<open>\<open>QuickStart.setup_aria2c\<close>: the text written to \<open>aria2.conf\<close>; \<open>dir\<close> is
  \<open>self.download_dir.absolute()\<close>.\<close>

definition qs_config :: "ustr \<Rightarrow> ustr" where
  "qs_config dir = unlines
     [U ''# Grant Cardone Ultra-Fast Configuration'',
      U ''max-concurrent-downloads=16'',
      U ''split=16'',
      U ''min-split-size=1M'',
      U ''max-connection-per-server=16'',
      U ''piece-length=1M'',
      U ''continue=true'',
      U ''max-tries=5'',
      U ''retry-wait=30'',
      U ''timeout=600'',
      U ''connect-timeout=60'',
      U ''allow-overwrite=true'',
      U ''file-allocation=trunc'',
      U ''dir='' @ dir,
      U ''log-level=notice'',
      U ''show-console-readout=true'',
      U ''disk-cache=64M'',
      U ''enable-http-keep-alive=true'',
      U ''enable-http-pipelining=true'']"

definition qs_setup_aria2c :: "ustr \<Rightarrow> event list" where
  "qs_setup_aria2c dir = [WriteFile (U ''aria2.conf'') (qs_config dir)]"

text \<open>One iteration of the loop of \<open>QuickStart.download_with_aria2c\<close> (lines 172 to 180):
  the text of its three \<open>f.write\<close> calls.\<close>

definition qs_entry :: "runtime \<Rightarrow> nat \<Rightarrow> json \<Rightarrow> py_error + ustr" where
  "qs_entry rt i video =
     (case get video (U ''title'') (JStr (U ''Video '' @ dec i)) of
        Inl e \<Rightarrow> Inl e
      | Inr title \<Rightarrow>
     (case re_subject title of
        Inl e \<Rightarrow> Inl e
      | Inr t \<Rightarrow>
     (let filename = fmt03d i @ U ''-'' @ safe_title rt t in
      case subscript video (U ''url'') of
        Inl e \<Rightarrow> Inl e
      | Inr url \<Rightarrow>
          Inr (format rt url @ [newline]
               @ U ''  out='' @ filename @ U ''.%(ext)s'' @ [newline]
               @ [newline]))))"

definition qs_cmd :: "ustr list" where
  "qs_cmd =
     [U ''aria2c'', U ''--conf-path=aria2.conf'', U ''--input-file=aria2_downloads.txt'',
      U ''--show-console-readout=true'', U ''--summary-interval=30'', U ''--human-readable=true'']"

text \<open>
  \<open>QuickStart.download_with_aria2c\<close>. \<open>aria\<close> is what \<open>subprocess.run\<close> does with the
  \<open>aria2c\<close> command: every exception of it is caught. The exceptions raised before
  are caught only when they are \<open>JSONDecodeError\<close> or \<open>FileNotFoundError\<close>.
\<close>

definition qs_download_with_aria2c :: "runtime \<Rightarrow> files \<Rightarrow> outcome \<Rightarrow> py_error + event list" where
  "qs_download_with_aria2c rt fs aria =
     (let video_file =
            (if fs (U ''grantcardone_complete.json'') \<noteq> Missing
               then Some (U ''grantcardone_complete.json'')
             else if fs (U ''grantcardone_videos.json'') \<noteq> Missing
               then Some (U ''grantcardone_videos.json'')
             else None)
      in case video_file of
        None \<Rightarrow> Inr [Print (U ''No video data file found. Complete Steps 1 & 2 first.'')]
      | Some p \<Rightarrow>
     (case fs p of
        Missing \<Rightarrow> Inr [Print (U ''Invalid video data file'')]
      | Malformed \<Rightarrow> Inr [Print (U ''Invalid video data file'')]
      | Unreadable \<Rightarrow> Inl UncaughtError
      | Decoded data \<Rightarrow>
     (case get data (U ''videos'') (JArr []) of
        Inl e \<Rightarrow> Inl e
      | Inr videos \<Rightarrow>
          if \<not> truthy videos then Inr [Print (U ''No videos found in data file'')]
          else
     (case py_iter videos of
        Inl e \<Rightarrow> Inl e
      | Inr vs \<Rightarrow>
     (case write_loop (qs_entry rt) 1 vs [] of
        Inl e \<Rightarrow> Inl e
      | Inr content \<Rightarrow>
          Inr [WriteFile (U ''aria2_downloads.txt'') content,
               Run qs_cmd None,
               (case aria of
                  Exited rc \<Rightarrow> Print (U ''DOWNLOAD COMPLETE!'')
                | NotFound \<Rightarrow> Print (U ''aria2c not found. Install with: brew install aria2c'')
                | _ \<Rightarrow> Print (U ''Error''))])))))"

text \<open>\<open>QuickStart.run\<close>: the download when one of the two video files exists, the
  instructions and the configuration otherwise.\<close>

definition qs_run :: "runtime \<Rightarrow> files \<Rightarrow> ustr \<Rightarrow> outcome \<Rightarrow> py_error + event list" where
  "qs_run rt fs dir aria =
     (if fs (U ''grantcardone_complete.json'') \<noteq> Missing \<or> fs (U ''grantcardone_videos.json'') \<noteq> Missing
      then (case qs_download_with_aria2c rt fs aria of
              Inl e \<Rightarrow> Inl e
            | Inr evs \<Rightarrow> Inr (qs_setup_aria2c dir @ evs))
      else Inr (qs_setup_aria2c dir))"

section \<open>GRANT_CARDONE_MASTER.py\<close>

text \<open>
  \<open>GrantCardoneMaster.check_stage2_complete\<close>. First one pass of its loop over the two
  files: \<open>Some\<close> is the \<open>return videos\<close> with its report (whose \<open>len(videos)\<close> raises on a
  value without length), \<open>None\<close> goes on to the next file. Only \<open>JSONDecodeError\<close> is
  caught. After the loop the function reports and returns \<open>None\<close>.
\<close>

fun check_stage2_file :: "file_state \<Rightarrow> py_error + (event list \<times> json) option" where
  "check_stage2_file Missing = Inr None"
| "check_stage2_file Malformed = Inr None"
| "check_stage2_file Unreadable = Inl UncaughtError"
| "check_stage2_file (Decoded data) =
     (case get data (U ''videos'') (JArr []) of
        Inl e \<Rightarrow> Inl e
      | Inr videos \<Rightarrow>
          if truthy videos
          then (case py_iter videos of
                  Inl e \<Rightarrow> Inl e
                | Inr vs \<Rightarrow>
                    Inr (Some ([Print (U ''Stage 2 complete: '' @ dec (length vs) @ U '' videos found'')],
                               videos)))
          else Inr None)"

definition check_stage2_complete :: "files \<Rightarrow> py_error + (event list \<times> json option)" where
  "check_stage2_complete fs =
     (case check_stage2_file (fs (U ''grantcardone_complete.json'')) of
        Inl e \<Rightarrow> Inl e
      | Inr (Some (report, videos)) \<Rightarrow> Inr (report, Some videos)
      | Inr None \<Rightarrow>
     (case check_stage2_file (fs (U ''grantcardone_videos.json'')) of
        Inl e \<Rightarrow> Inl e
      | Inr (Some (report, videos)) \<Rightarrow> Inr (report, Some videos)
      | Inr None \<Rightarrow> Inr ([Print (U ''Stage 2 data not found or invalid'')], None)))"

text \<open>One iteration of the loop of \<open>create_aria2_input_file\<close> (lines 177 to 186). The
  second \<open>f.write\<close> ends in \<open>\nn\<close>.\<close>

definition master_entry :: "runtime \<Rightarrow> nat \<Rightarrow> json \<Rightarrow> py_error + ustr" where
  "master_entry rt i video =
     (case get video (U ''title'') (JStr (U ''Video '' @ dec i)) of
        Inl e \<Rightarrow> Inl e
      | Inr title \<Rightarrow>
     (case re_subject title of
        Inl e \<Rightarrow> Inl e
      | Inr t \<Rightarrow>
     (let filename = fmt03d i @ U ''-'' @ safe_title rt t in
      case subscript video (U ''url'') of
        Inl e \<Rightarrow> Inl e
      | Inr url \<Rightarrow>
          Inr (format rt url @ [newline]
               @ U ''  out='' @ filename @ U ''.%(ext)s'' @ [newline] @ U ''n''
               @ [newline]))))"

text \<open>\<open>GrantCardoneMaster.create_aria2_input_file\<close>: the text of \<open>aria2_downloads.txt\<close>.\<close>

definition create_aria2_input_file :: "runtime \<Rightarrow> json \<Rightarrow> py_error + ustr" where
  "create_aria2_input_file rt videos =
     (case py_iter videos of
        Inl e \<Rightarrow> Inl e
      | Inr vs \<Rightarrow> write_loop (master_entry rt) 1 vs [])"

section \<open>stage2_automated_scraper.py\<close>

text \<open>\<open>AutomatedScraper.setup_aria2c\<close>; \<open>dir\<close> is \<open>os.path.abspath(self.download_dir)\<close>.\<close>

definition s2_config :: "ustr \<Rightarrow> ustr" where
  "s2_config dir = unlines
     [[],
      U ''# Grant Cardone Video Downloader Configuration'',
      U ''max-concurrent-downloads=16'',
      U ''split=16'',
      U ''min-split-size=1M'',
      U ''max-connection-per-server=16'',
      U ''piece-length=1M'',
      U ''continue=true'',
      U ''max-tries=5'',
      U ''retry-wait=30'',
      U ''timeout=600'',
      U ''connect-timeout=60'',
      U ''allow-overwrite=true'',
      U ''file-allocation=trunc'',
      U ''dir='' @ dir,
      U ''log-level=notice'',
      U ''log=aria2c.log'',
      U ''console-log-level=notice'',
      U ''summary-interval=60'',
      U ''show-console-readout=true'',
      U ''enable-rpc=false'']"

definition download_dir :: ustr where
  "download_dir = U ''./grant-cardone-downloads''"

text \<open>One iteration of the loop of \<open>AutomatedScraper.download_with_aria2c\<close>
  (lines 375 to 386).\<close>

definition s2_entry :: "runtime \<Rightarrow> nat \<Rightarrow> json \<Rightarrow> py_error + ustr" where
  "s2_entry rt i video =
     (case get video (U ''title'') (JStr (U ''Video '' @ dec i)) of
        Inl e \<Rightarrow> Inl e
      | Inr title \<Rightarrow>
     (case re_subject title of
        Inl e \<Rightarrow> Inl e
      | Inr t \<Rightarrow>
     (let filename = fmt03d i @ U ''-'' @ safe_title rt t in
      case subscript video (U ''url'') of
        Inl e \<Rightarrow> Inl e
      | Inr url \<Rightarrow>
     (let out_path = path_join download_dir (filename @ U ''.%(ext)s'') in
          Inr (format rt url @ [newline]
               @ U ''  out='' @ basename out_path @ [newline]
               @ [newline])))))"

definition s2_cmd :: "ustr list" where
  "s2_cmd =
     [U ''aria2c'', U ''--conf-path=aria2.conf'', U ''--input-file=aria2_downloads.txt'',
      U ''--show-console-readout'', U ''--summary-interval=30'']"

text \<open>\<open>AutomatedScraper.download_with_aria2c\<close>. Of the exceptions of
  \<open>subprocess.run\<close> only \<open>FileNotFoundError\<close> is caught (\<open>CalledProcessError\<close> is not
  raised without \<open>check\<close>).\<close>

definition s2_download_with_aria2c :: "runtime \<Rightarrow> ustr \<Rightarrow> json \<Rightarrow> outcome \<Rightarrow> py_error + event list" where
  "s2_download_with_aria2c rt dir videos aria =
     (if \<not> truthy videos then Inr [Print (U ''No videos to download'')]
      else
     (case py_iter videos of
        Inl e \<Rightarrow> Inl e
      | Inr vs \<Rightarrow>
     (case write_loop (s2_entry rt) 1 vs [] of
        Inl e \<Rightarrow> Inl e
      | Inr content \<Rightarrow>
     (case aria of
        Exited rc \<Rightarrow>
          Inr [WriteFile (U ''aria2.conf'') (s2_config dir),
               WriteFile (U ''aria2_downloads.txt'') content,
               Run s2_cmd None,
               Print (if rc = 0 then U ''All downloads completed successfully!''
                      else U ''aria2c completed with exit code'')]
      | NotFound \<Rightarrow>
          Inr [WriteFile (U ''aria2.conf'') (s2_config dir),
               WriteFile (U ''aria2_downloads.txt'') content,
               Run s2_cmd None,
               Print (U ''aria2c not found. Install with: brew install aria2'')]
      | _ \<Rightarrow> Inl UncaughtError))))"

text \<open>\<open>AutomatedScraper.load_complete_data\<close>: the report and the value returned.\<close>

definition load_complete_data :: "files \<Rightarrow> py_error + (event list \<times> json)" where
  "load_complete_data fs =
     (case fs (U ''grantcardone_complete.json'') of
        Missing \<Rightarrow> Inr ([Print (U ''grantcardone_complete.json not found'')], JArr [])
      | Malformed \<Rightarrow> Inr ([Print (U ''Invalid JSON in grantcardone_complete.json'')], JArr [])
      | Unreadable \<Rightarrow> Inl UncaughtError
      | Decoded data \<Rightarrow>
     (case get data (U ''videos'') (JArr []) of
        Inl e \<Rightarrow> Inl e
      | Inr videos \<Rightarrow>
     (case py_iter videos of
        Inl e \<Rightarrow> Inl e
      | Inr vs \<Rightarrow>
          Inr ([Print (U ''Loaded '' @ dec (length vs) @ U '' videos from automation'')], videos))))"

text \<open>\<open>AutomatedScraper.run\<close>. Without videos it writes \<open>complete_automation.js\<close>
  (\<open>run_browser_automation\<close>; \<open>js\<close> is the fixed text of that script) and returns.\<close>

definition s2_run :: "runtime \<Rightarrow> files \<Rightarrow> ustr \<Rightarrow> ustr \<Rightarrow> outcome \<Rightarrow> py_error + event list" where
  "s2_run rt fs dir js aria =
     (case load_complete_data fs of
        Inl e \<Rightarrow> Inl e
      | Inr (report, videos) \<Rightarrow>
          if \<not> truthy videos
          then Inr (report @ [WriteFile (U ''complete_automation.js'') js,
                              Print (U ''AUTOMATION SCRIPT READY'')])
          else (case s2_download_with_aria2c rt dir videos aria of
                  Inl e \<Rightarrow> Inl e
                | Inr evs \<Rightarrow> Inr (report @ evs)))"


text \<open>
  The JavaScript that \<open>create_stage2_script\<close> and \<open>create_automation_script\<close> emit ends
  its extraction with
  \<^verbatim>\<open>pageVideos.filter((video, index, self) => index === self.findIndex((v) => v.url === video.url))\<close>.
  A JavaScript string is its sequence of code units; \<open>===\<close> on strings compares them.
\<close>

record js_video =
  js_url :: ustr
  js_title :: ustr
  js_source :: ustr

text \<open>\<open>Array.prototype.findIndex\<close>: the first index whose element satisfies the
  predicate, \<open>-1\<close> when there is none.\<close>

fun findIndex :: "('a \<Rightarrow> bool) \<Rightarrow> 'a list \<Rightarrow> int" where
  "findIndex p [] = - 1"
| "findIndex p (x # xs) =
     (if p x then 0 else (let r = findIndex p xs in if r < 0 then - 1 else r + 1))"

definition remove_duplicates :: "js_video list \<Rightarrow> js_video list" where
  "remove_duplicates pageVideos =
     map snd (filter (\<lambda>(index, video). int index = findIndex (\<lambda>v. js_url v = js_url video) pageVideos)
                     (enumerate 0 pageVideos))"

section \<open>grant_cardone_downloader.py\<close>

text \<open>The dictionaries that \<open>process_video_data\<close> appends.\<close>

record video_info =
  vi_title :: ustr
  vi_filename :: ustr
  vi_url :: json
  vi_type :: json

text \<open>The loop of \<open>GrantCardoneDownloader.process_video_data\<close>; the last argument is
  \<open>processed_videos\<close>.\<close>

fun process_items :: "runtime \<Rightarrow> json list \<Rightarrow> video_info list \<Rightarrow> py_error + video_info list" where
  "process_items rt [] processed_videos = Inr processed_videos"
| "process_items rt (JObj item # items) processed_videos =
     (let title = dict_get item (U ''title'') (JStr (U ''Video '' @ dec (length processed_videos + 1)));
          src = dict_get item (U ''src'') (JStr [])
      in case re_subject title of
           Inl e \<Rightarrow> Inl e
         | Inr t \<Rightarrow>
             if truthy src
             then process_items rt items
                    (processed_videos @
                     [\<lparr>vi_title = t,
                       vi_filename = fmt03d (length processed_videos + 1) @ U ''-'' @ safe_title rt t,
                       vi_url = src,
                       vi_type = dict_get item (U ''type'') (JStr (U ''unknown''))\<rparr>])
             else process_items rt items processed_videos)"
| "process_items rt (item # items) processed_videos = process_items rt items processed_videos"

definition process_video_data :: "runtime \<Rightarrow> json \<Rightarrow> py_error + video_info list" where
  "process_video_data rt video_data =
     (case py_iter video_data of
        Inl e \<Rightarrow> Inl e
      | Inr items \<Rightarrow> process_items rt items [])"

text \<open>The end of \<open>extract_videos_manually\<close>: loading \<open>video_data.json\<close>.\<close>

definition load_video_data :: "runtime \<Rightarrow> files \<Rightarrow> py_error + (event list \<times> video_info list)" where
  "load_video_data rt fs =
     (case fs (U ''video_data.json'') of
        Missing \<Rightarrow> Inr ([Print (U ''Error: video_data.json file not found'')], [])
      | Malformed \<Rightarrow> Inr ([Print (U ''Error: Invalid JSON in video_data.json'')], [])
      | Unreadable \<Rightarrow> Inl UncaughtError
      | Decoded video_data \<Rightarrow>
          (case process_video_data rt video_data of
             Inl e \<Rightarrow> Inl e
           | Inr videos \<Rightarrow> Inr ([], videos)))"

definition gcd_cmd :: "ustr \<Rightarrow> ustr \<Rightarrow> ustr \<Rightarrow> ustr list" where
  "gcd_cmd ddir filename url =
     [U ''yt-dlp'', U ''--no-warnings'', U ''--embed-metadata'', U ''--embed-thumbnail'',
      U ''--write-subtitles'', U ''--write-auto-subs'', U ''--sub-langs'', U ''en'',
      U ''--output'', ddir @ U ''/'' @ filename @ U ''.%(ext)s'',
      U ''--format'', U ''best[height<=1080]'',
      url]"

text \<open>
  \<open>GrantCardoneDownloader.download_video\<close>; \<open>ddir\<close> is \<open>self.download_dir\<close>. The command
  runs with \<open>check=True\<close> and without timeout; only \<open>CalledProcessError\<close> (a return code
  other than 0) is caught. An argument that is not a string makes \<open>subprocess.run\<close>
  raise \<open>TypeError\<close>.
\<close>

definition download_video :: "ustr \<Rightarrow> video_info \<Rightarrow> outcome \<Rightarrow> py_error + (event list \<times> bool)" where
  "download_video ddir video_info oc =
     (case vi_url video_info of
        JStr url \<Rightarrow>
          (case oc of
             Exited rc \<Rightarrow> Inr ([Run (gcd_cmd ddir (vi_filename video_info) url) None], rc = 0)
           | _ \<Rightarrow> Inl UncaughtError)
      | _ \<Rightarrow> Inl TypeError)"

text \<open>The loop of \<open>download_all_videos\<close>; \<open>env i\<close> is what the command of the \<open>i\<close>-th
  video does. The state is the trace and the two counters.\<close>

fun download_all_loop ::
  "ustr \<Rightarrow> (nat \<Rightarrow> outcome) \<Rightarrow> nat \<Rightarrow> video_info list \<Rightarrow> event list \<times> nat \<times> nat
   \<Rightarrow> py_error + (event list \<times> nat \<times> nat)" where
  "download_all_loop ddir env i [] st = Inr st"
| "download_all_loop ddir env i (video # videos) (tr, successful_downloads, failed_downloads) =
     (case download_video ddir video (env i) of
        Inl e \<Rightarrow> Inl e
      | Inr (evs, ok) \<Rightarrow>
          download_all_loop ddir env (Suc i) videos
            (tr @ evs @ [Sleep 1],
             (if ok then successful_downloads + 1 else successful_downloads),
             (if ok then failed_downloads else failed_downloads + 1)))"

definition download_all_videos :: "ustr \<Rightarrow> (nat \<Rightarrow> outcome) \<Rightarrow> video_info list \<Rightarrow> py_error + event list" where
  "download_all_videos ddir env videos =
     (if videos = [] then Inr [Print (U ''No videos to download'')]
      else (case download_all_loop ddir env 1 videos ([], 0, 0) of
              Inl e \<Rightarrow> Inl e
            | Inr (tr, successful_downloads, failed_downloads) \<Rightarrow>
                Inr (tr @ [Summary successful_downloads failed_downloads])))"

section \<open>interactive_extractor.py\<close>

definition ie_cmd :: "ustr \<Rightarrow> ustr \<Rightarrow> ustr list" where
  "ie_cmd output_path url =
     [U ''yt-dlp'', U ''--no-warnings'', U ''--embed-metadata'',
      U ''--output'', output_path,
      U ''--format'', U ''best[height<=1080]'',
      U ''--retries'', U ''3'',
      url]"

text \<open>
  One iteration of the loop of \<open>InteractiveExtractor.download_collected_videos\<close>
  (lines 117 to 169): its events and what it adds to \<open>successful\<close> and \<open>failed\<close>.
  The inner \<open>try\<close> catches every exception of \<open>subprocess.run\<close>; the exceptions of the
  statements before it leave the loop.
\<close>

definition ie_step :: "runtime \<Rightarrow> outcome \<Rightarrow> nat \<Rightarrow> json \<Rightarrow> py_error + (event list \<times> nat \<times> nat)" where
  "ie_step rt oc i video =
     (case get video (U ''title'') (JStr (U ''Video '' @ dec i)) of
        Inl e \<Rightarrow> Inl e
      | Inr title \<Rightarrow>
     (case subscript video (U ''url'') of
        Inl e \<Rightarrow> Inl e
      | Inr url \<Rightarrow>
     (case re_subject title of
        Inl e \<Rightarrow> Inl e
      | Inr t \<Rightarrow>
     (let filename = fmt03d i @ U ''-'' @ safe_title rt t;
          output_path = path_join download_dir (filename @ U ''.%(ext)s'')
      in case get video (U ''type'') JNull of
        Inl e \<Rightarrow> Inl e
      | Inr ty \<Rightarrow>
          if ty = JStr (U ''lesson-link'') then Inr ([], 0, 0)
          else
     (case url of
        JStr u \<Rightarrow>
          (case oc of
             Exited rc \<Rightarrow>
               if rc = 0 then Inr ([Run (ie_cmd output_path u) (Some 300), Sleep 2], 1, 0)
               else Inr ([Run (ie_cmd output_path u) (Some 300), Sleep 2], 0, 1)
           | _ \<Rightarrow> Inr ([Run (ie_cmd output_path u) (Some 300), Sleep 2], 0, 1))
      | _ \<Rightarrow> Inr ([Sleep 2], 0, 1))))))"

fun ie_loop ::
  "runtime \<Rightarrow> (nat \<Rightarrow> outcome) \<Rightarrow> nat \<Rightarrow> json list \<Rightarrow> event list \<times> nat \<times> nat
   \<Rightarrow> py_error + (event list \<times> nat \<times> nat)" where
  "ie_loop rt env i [] st = Inr st"
| "ie_loop rt env i (video # videos) (tr, successful, failed) =
     (case ie_step rt (env i) i video of
        Inl e \<Rightarrow> Inl e
      | Inr (evs, s, f) \<Rightarrow> ie_loop rt env (Suc i) videos (tr @ evs, successful + s, failed + f))"

text \<open>\<open>InteractiveExtractor.download_collected_videos\<close>. The outer \<open>try\<close> catches
  \<open>FileNotFoundError\<close> and \<open>JSONDecodeError\<close> only.\<close>

definition download_collected_videos :: "runtime \<Rightarrow> files \<Rightarrow> (nat \<Rightarrow> outcome) \<Rightarrow> py_error + event list" where
  "download_collected_videos rt fs env =
     (let video_file =
            (if fs (U ''grantcardone_videos.json'') \<noteq> Missing then Some (U ''grantcardone_videos.json'')
             else if fs (U ''found_videos.json'') \<noteq> Missing then Some (U ''found_videos.json'')
             else None)
      in case video_file of
        None \<Rightarrow> Inr [Print (U ''No video data file found'')]
      | Some p \<Rightarrow>
     (case fs p of
        Missing \<Rightarrow> Inr [Print (U ''found_videos.json not found'')]
      | Malformed \<Rightarrow> Inr [Print (U ''Invalid JSON in found_videos.json'')]
      | Unreadable \<Rightarrow> Inl UncaughtError
      | Decoded data \<Rightarrow>
     (case get data (U ''videos'') data of
        Inl e \<Rightarrow> Inl e
      | Inr videos \<Rightarrow>
          if \<not> truthy videos then Inr [Print (U ''No videos found in found_videos.json'')]
          else
     (case py_iter videos of
        Inl e \<Rightarrow> Inl e
      | Inr vs \<Rightarrow>
     (case ie_loop rt env 1 vs ([], 0, 0) of
        Inl e \<Rightarrow> Inl e
      | Inr (tr, successful, failed) \<Rightarrow> Inr (tr @ [Summary successful failed]))))))"

section \<open>advanced_extractor.py\<close>

text \<open>The dictionaries that \<open>extract_videos_from_response\<close> builds, as
  \<open>download_videos\<close> reads them.\<close>

record adv_video =
  av_title :: ustr
  av_url :: json
  av_filename :: ustr
  av_program :: ustr
  av_description :: json

text \<open>The command of \<open>AdvancedCardoneExtractor.download_videos\<close>; \<open>ua\<close> and \<open>auth\<close> are
  the two headers of the session.\<close>

definition adv_cmd :: "runtime \<Rightarrow> ustr \<Rightarrow> ustr \<Rightarrow> adv_video \<Rightarrow> ustr \<Rightarrow> ustr list" where
  "adv_cmd rt ua auth video url =
     (let output_path =
            (if av_program video \<noteq> []
             then path_join (path_join download_dir (av_program video)) (av_filename video @ U ''.%(ext)s'')
             else path_join download_dir (av_filename video @ U ''.%(ext)s''))
      in [U ''yt-dlp'', U ''--user-agent'', ua, U ''--cookies'', U ''/dev/null'',
          U ''--add-header'', U ''Authorization: '' @ auth,
          U ''--no-warnings'', U ''--embed-metadata'', U ''--embed-thumbnail'',
          U ''--write-subtitles'', U ''--write-auto-subs'', U ''--sub-langs'', U ''en'',
          U ''--output'', output_path,
          U ''--format'', U ''best[height<=1080]'',
          U ''--retries'', U ''3'', U ''--fragment-retries'', U ''3'',
          url]
         @ (if truthy (av_description video)
            then [U ''--add-metadata'', U ''--metadata'', U ''description='' @ format rt (av_description video)]
            else []))"

text \<open>One iteration of its loop: every exception of \<open>subprocess.run\<close> is caught, and
  \<open>self.random_delay(2, 5)\<close> follows.\<close>

definition adv_step :: "runtime \<Rightarrow> ustr \<Rightarrow> ustr \<Rightarrow> outcome \<Rightarrow> adv_video \<Rightarrow> event list" where
  "adv_step rt ua auth oc video =
     (case av_url video of
        JStr url \<Rightarrow> [Run (adv_cmd rt ua auth video url) (Some 300), SleepUniform 2 5]
      | _ \<Rightarrow> [SleepUniform 2 5])"

fun adv_loop :: "runtime \<Rightarrow> ustr \<Rightarrow> ustr \<Rightarrow> (nat \<Rightarrow> outcome) \<Rightarrow> nat \<Rightarrow> adv_video list \<Rightarrow> event list \<Rightarrow> event list" where
  "adv_loop rt ua auth env i [] tr = tr"
| "adv_loop rt ua auth env i (video # videos) tr =
     adv_loop rt ua auth env (Suc i) videos (tr @ adv_step rt ua auth (env i) video)"

definition download_videos :: "runtime \<Rightarrow> ustr \<Rightarrow> ustr \<Rightarrow> (nat \<Rightarrow> outcome) \<Rightarrow> adv_video list \<Rightarrow> event list" where
  "download_videos rt ua auth env videos =
     (if videos = [] then [Print (U ''No videos to download'')]
      else adv_loop rt ua auth env 1 videos [])"

section \<open>Vocabulary of the properties\<close>

text \<open>
  The properties speak of records that the loops can process: a dict with a \<open>url\<close> key
  whose \<open>title\<close> is a string or absent. The accessors read such a record.
\<close>

definition title_ok :: "json \<Rightarrow> bool" where
  "title_ok video =
     (case video of
        JObj d \<Rightarrow> (case map_of d (U ''title'') of None \<Rightarrow> True | Some (JStr t) \<Rightarrow> True | Some _ \<Rightarrow> False)
      | _ \<Rightarrow> False)"

definition has_url :: "json \<Rightarrow> bool" where
  "has_url video = (case video of JObj d \<Rightarrow> map_of d (U ''url'') \<noteq> None | _ \<Rightarrow> False)"

definition record_ok :: "json \<Rightarrow> bool" where
  "record_ok video \<longleftrightarrow> title_ok video \<and> has_url video"

definition str_url :: "json \<Rightarrow> bool" where
  "str_url video = (case subscript video (U ''url'') of Inr (JStr u) \<Rightarrow> True | _ \<Rightarrow> False)"

definition is_lesson_link :: "json \<Rightarrow> bool" where
  "is_lesson_link video \<longleftrightarrow> get video (U ''type'') JNull = Inr (JStr (U ''lesson-link''))"

definition str_of :: "json \<Rightarrow> ustr" where
  "str_of v = (case v of JStr s \<Rightarrow> s | _ \<Rightarrow> [])"

definition url_of :: "json \<Rightarrow> json" where
  "url_of video = (case subscript video (U ''url'') of Inr u \<Rightarrow> u | Inl e \<Rightarrow> JNull)"

definition title_of :: "nat \<Rightarrow> json \<Rightarrow> ustr" where
  "title_of i video =
     (case get video (U ''title'') (JStr (U ''Video '' @ dec i)) of Inr (JStr t) \<Rightarrow> t | _ \<Rightarrow> [])"

text \<open>\<open>f"{i:03d}-{safe_title}"\<close> of the \<open>i\<close>-th record.\<close>

definition filename_of :: "runtime \<Rightarrow> nat \<Rightarrow> json \<Rightarrow> ustr" where
  "filename_of rt i video = fmt03d i @ U ''-'' @ safe_title rt (title_of i video)"

text \<open>The three lines of one record in \<open>aria2_downloads.txt\<close>, with the third line
  as a parameter.\<close>

definition aria_lines :: "runtime \<Rightarrow> ustr \<Rightarrow> nat \<Rightarrow> json \<Rightarrow> ustr" where
  "aria_lines rt third i video =
     unlines [format rt (url_of video),
              U ''  out='' @ filename_of rt i video @ U ''.%(ext)s'',
              third]"

text \<open>A file in one of the three conditions without videos: absent, rejected by the
  JSON decoder, or an object whose \<open>videos\<close> list is empty.\<close>

fun no_video_data :: "file_state \<Rightarrow> bool" where
  "no_video_data Missing = True"
| "no_video_data Malformed = True"
| "no_video_data Unreadable = False"
| "no_video_data (Decoded (JObj obj)) = (map_of obj (U ''videos'') = Some (JArr []))"
| "no_video_data (Decoded _) = False"

text \<open>The file that \<open>QuickStart.download_with_aria2c\<close> and
  \<open>check_stage2_complete\<close> read decodes to \<open>data\<close>: \<open>grantcardone_complete.json\<close>, or
  \<open>grantcardone_videos.json\<close> when the former is absent.\<close>

definition video_data_in :: "files \<Rightarrow> json \<Rightarrow> bool" where
  "video_data_in fs data \<longleftrightarrow>
     fs (U ''grantcardone_complete.json'') = Decoded data
     \<or> (fs (U ''grantcardone_complete.json'') = Missing
         \<and> fs (U ''grantcardone_videos.json'') = Decoded data)"

text \<open>A concrete input: the record \<open>{"url": "http://x/a.mp4", "title": "A"}\<close>, and a
  directory whose only file is \<open>grantcardone_videos.json\<close> with \<open>{"videos": [...]}\<close>.\<close>

definition example_video :: "(ustr \<times> json) list" where
  "example_video = [(U ''url'', JStr (U ''http://x/a.mp4'')), (U ''title'', JStr (U ''A''))]"

definition videos_file :: "json list \<Rightarrow> files" where
  "videos_file vs =
     (\<lambda>p. if p = U ''grantcardone_videos.json'' then Decoded (JObj [(U ''videos'', JArr vs)])
          else Missing)"

text \<open>The file that \<open>download_collected_videos\<close> reads decodes to \<open>data\<close>:
  \<open>grantcardone_videos.json\<close>, or \<open>found_videos.json\<close> when the former is absent.\<close>

definition collected_in :: "files \<Rightarrow> json \<Rightarrow> bool" where
  "collected_in fs data \<longleftrightarrow>
     fs (U ''grantcardone_videos.json'') = Decoded data
     \<or> (fs (U ''grantcardone_videos.json'') = Missing
         \<and> fs (U ''found_videos.json'') = Decoded data)"

text \<open>What one processable record adds to the trace of \<open>download_collected_videos\<close>,
  and whether its download counts as successful.\<close>

definition ie_output_path :: "runtime \<Rightarrow> nat \<Rightarrow> json \<Rightarrow> ustr" where
  "ie_output_path rt i video = path_join download_dir (filename_of rt i video @ U ''.%(ext)s'')"

definition ie_events :: "runtime \<Rightarrow> nat \<Rightarrow> json \<Rightarrow> event list" where
  "ie_events rt i video =
     (if is_lesson_link video then []
      else if str_url video
        then [Run (ie_cmd (ie_output_path rt i video) (str_of (url_of video))) (Some 300), Sleep 2]
      else [Sleep 2])"

definition ie_succeeds :: "(nat \<Rightarrow> outcome) \<Rightarrow> nat \<Rightarrow> json \<Rightarrow> bool" where
  "ie_succeeds env i video \<longleftrightarrow> str_url video \<and> env i = Exited 0"

text \<open>A command line that holds \<open>--format\<close> followed by \<open>best[height<=1080]\<close>.\<close>

fun has_format :: "ustr list \<Rightarrow> bool" where
  "has_format (a # b # rest) =
     ((a = U ''--format'' \<and> b = U ''best[height<=1080]'') \<or> has_format (b # rest))"
| "has_format _ = False"

text \<open>Further concrete inputs: a processed record of \<open>process_video_data\<close>, a lesson
  link as the browser script of \<open>interactive_extractor.py\<close> emits it, and a record of
  \<open>extract_videos_from_response\<close>.\<close>

definition example_info :: video_info where
  "example_info =
     \<lparr>vi_title = U ''A'', vi_filename = U ''001-A'', vi_url = JStr (U ''http://x/a.mp4''),
      vi_type = JStr (U ''unknown'')\<rparr>"

definition example_lesson :: "(ustr \<times> json) list" where
  "example_lesson =
     [(U ''url'', JStr (U ''http://x/lesson/1'')), (U ''title'', JStr (U ''L'')),
      (U ''type'', JStr (U ''lesson-link''))]"

definition example_adv :: adv_video where
  "example_adv =
     \<lparr>av_title = U ''A'', av_url = JStr (U ''http://x/a.mp4''), av_filename = U ''001-A'',
      av_program = [], av_description = JNull\<rparr>"

text \<open>The items of \<open>process_video_data\<close>: the \<open>src\<close> it reads from an item (nothing
  from an item that is not a dict), and the items whose title does not stop it.\<close>

definition src_of :: "json \<Rightarrow> json" where
  "src_of item = (case item of JObj d \<Rightarrow> dict_get d (U ''src'') (JStr []) | _ \<Rightarrow> JNull)"

definition item_ok :: "json \<Rightarrow> bool" where
  "item_ok item = (case item of JObj d \<Rightarrow> title_ok item | _ \<Rightarrow> True)"

definition example_js :: "ustr \<Rightarrow> js_video" where
  "example_js u = \<lparr>js_url = u, js_title = U ''Video 1'', js_source = U ''video-element''\<rparr>"

text \<open>A directory whose only file is \<open>found_videos.json\<close> with the given value, and one
  whose only file is \<open>video_data.json\<close>.\<close>

definition found_file :: "json \<Rightarrow> files" where
  "found_file data = (\<lambda>p. if p = U ''found_videos.json'' then Decoded data else Missing)"

definition video_data_file :: "json \<Rightarrow> files" where
  "video_data_file data = (\<lambda>p. if p = U ''video_data.json'' then Decoded data else Missing)"

text \<open>
  The downloads that \<open>aria2c\<close> reads from an input file: a line that begins with a space
  or a tab is an option of the download above it, a line that begins with \<open>#\<close> is a
  comment, and every other line that is not empty names the URIs of one download.
\<close>

fun split_lines :: "ustr \<Rightarrow> ustr \<Rightarrow> ustr list" where
  "split_lines cur [] = (if cur = [] then [] else [cur])"
| "split_lines cur (c # cs) =
     (if c = newline then cur # split_lines [] cs else split_lines (cur @ [c]) cs)"

definition is_uri_line :: "ustr \<Rightarrow> bool" where
  "is_uri_line l \<longleftrightarrow> l \<noteq> [] \<and> hd l \<noteq> 32 \<and> hd l \<noteq> 9 \<and> hd l \<noteq> 35"

definition download_entries :: "ustr \<Rightarrow> ustr list" where
  "download_entries content = filter is_uri_line (split_lines [] content)"

fun is_run :: "event \<Rightarrow> bool" where
  "is_run (Run cmd t) = True"
| "is_run _ = False"

section \<open>Properties\<close>


subsection \<open>The sanitizer\<close>

lemma dropWhile_none: "\<forall>x\<in>set xs. \<not> P x \<Longrightarrow> dropWhile P xs = xs"
  by (cases xs) auto

lemma collapse_chars:
  "c \<in> set (collapse xs) \<Longrightarrow> c = hyphen \<or> (c \<in> set xs \<and> \<not> is_sep c)"
proof (induction xs rule: collapse.induct)
  case 1
  then show ?case by simp
next
  case (2 d ds)
  show ?case
  proof (cases "is_sep d")
    case True
    with 2 show ?thesis by (auto dest: set_dropWhileD)
  next
    case False
    with 2 show ?thesis by auto
  qed
qed

lemma dropWhile_collapse_dropWhile:
  "dropWhile is_sep (collapse (dropWhile is_sep cs)) = collapse (dropWhile is_sep cs)"
proof (cases "dropWhile is_sep cs")
  case Nil
  show ?thesis unfolding Nil by simp
next
  case (Cons y ys)
  then have "\<not> is_sep y" by (metis hd_dropWhile list.sel(1) list.distinct(1))
  with Cons show ?thesis by simp
qed

lemma collapse_idem: "collapse (collapse xs) = collapse xs"
proof (induction xs rule: collapse.induct)
  case 1
  then show ?case by simp
next
  case (2 d ds)
  show ?case
  proof (cases "is_sep d")
    case True
    have h: "is_sep hyphen" by (simp add: is_sep_def)
    from True 2 h show ?thesis by (simp add: dropWhile_collapse_dropWhile)
  next
    case False
    with 2 show ?thesis by simp
  qed
qed

lemma set_strip: "set (strip s) \<subseteq> set s"
  unfolding strip_def by (auto dest!: set_dropWhileD)

lemma strip_no_space:
  assumes "\<forall>c\<in>set s. \<not> is_space c"
  shows "strip s = s"
proof -
  have 1: "dropWhile is_space s = s" using assms by (simp add: dropWhile_none)
  have 2: "dropWhile is_space (rev s) = rev s" using assms by (simp add: dropWhile_none)
  show ?thesis by (simp add: strip_def 1 2)
qed

lemma hyphen_not_space: "\<not> is_space hyphen"
  by (simp add: is_space_def)

lemma safe_title_chars:
  assumes "c \<in> set (safe_title rt title)"
  shows "c = hyphen \<or> (is_word rt c \<and> \<not> is_space c)"
proof -
  from assms have "c = hyphen \<or> (c \<in> set (strip (strip_bad rt title)) \<and> \<not> is_sep c)"
    unfolding safe_title_def by (rule collapse_chars)
  then show ?thesis
  proof
    assume "c = hyphen" then show ?thesis by simp
  next
    assume h: "c \<in> set (strip (strip_bad rt title)) \<and> \<not> is_sep c"
    then have "c \<in> set (strip_bad rt title)" using set_strip by blast
    then have "is_word rt c \<or> is_space c \<or> c = hyphen" by (simp add: strip_bad_def)
    with h show ?thesis by (auto simp: is_sep_def)
  qed
qed

lemma safe_title_no_space: "c \<in> set (safe_title rt title) \<Longrightarrow> \<not> is_space c"
  using safe_title_chars hyphen_not_space by blast

lemma safe_title_idem: "safe_title rt (safe_title rt title) = safe_title rt title"
proof -
  let ?s = "safe_title rt title"
  have keep: "strip_bad rt ?s = ?s"
    unfolding strip_bad_def by (rule filter_True) (use safe_title_chars in blast)
  have nosp: "strip ?s = ?s"
    by (rule strip_no_space) (use safe_title_no_space in blast)
  have "collapse ?s = ?s"
    unfolding safe_title_def by (rule collapse_idem)
  with keep nosp show ?thesis
    by (simp add: safe_title_def)
qed

lemmas sanitize_eval =
  safe_title_def strip_bad_def strip_def is_word_def is_space_def is_sep_def ascii_alnum_def
  ascii_runtime_def

text \<open>On a title without code points from 128 on the Unicode table is not consulted.\<close>

lemma safe_title_ascii:
  assumes "\<forall>c\<in>set title. c < 128"
  shows "safe_title rt title = safe_title ascii_runtime title"
proof -
  have "strip_bad rt title = strip_bad ascii_runtime title"
    unfolding strip_bad_def using assms
    by (intro filter_cong) (auto simp: is_word_def ascii_runtime_def)
  then show ?thesis by (simp add: safe_title_def)
qed

text \<open>
  C1 (as the code has it). Every character of a sanitized title is a hyphen, an
  underscore, an ASCII letter or digit, or a code point from 128 on that the runtime
  classes as alphanumeric; none is whitespace. The underscore and the alphanumerics
  beyond ASCII are word characters of \<open>\w\<close> and are kept.
\<close>

theorem safe_title_charset:
  "\<forall>c\<in>set (safe_title rt title).
     (c = hyphen \<or> c = underscore \<or> ascii_alnum c \<or> (128 \<le> c \<and> uni_alnum rt c)) \<and> \<not> is_space c"
proof
  fix c assume c: "c \<in> set (safe_title rt title)"
  from safe_title_chars [OF c] have "c = hyphen \<or> is_word rt c" by blast
  then have "c = hyphen \<or> c = underscore \<or> ascii_alnum c \<or> (128 \<le> c \<and> uni_alnum rt c)"
    by (auto simp: is_word_def split: if_splits)
  with safe_title_no_space [OF c]
  show "(c = hyphen \<or> c = underscore \<or> ascii_alnum c \<or> (128 \<le> c \<and> uni_alnum rt c)) \<and> \<not> is_space c"
    by simp
qed

theorem safe_title_charset_witness:
  "underscore \<in> set (safe_title ascii_runtime (U ''a_b, c''))
   \<and> (underscore = hyphen \<or> underscore = underscore \<or> ascii_alnum underscore
        \<or> (128 \<le> underscore \<and> uni_alnum ascii_runtime underscore))
   \<and> \<not> is_space underscore"
proof -
  have m: "underscore \<in> set (safe_title ascii_runtime (U ''a_b, c''))"
    by (simp add: sanitize_eval)
  from safe_title_charset [of ascii_runtime "U ''a_b, c''"] m show ?thesis
    by blast
qed

text \<open>The title \<open>a_b\<close> is its own sanitized form: the underscore survives.\<close>

theorem safe_title_underscore_counterexample:
  "safe_title ascii_runtime (U ''a_b'') = U ''a_b''
   \<and> underscore \<in> set (U ''a_b'')
   \<and> \<not> (ascii_alnum underscore \<or> underscore = hyphen)"
  by (simp add: sanitize_eval)

text \<open>
  C8. The sanitized title is a function of the title, and sanitizing a sanitized title
  changes nothing.
\<close>

theorem safe_title_deterministic_idempotent:
  "(title = title' \<longrightarrow> safe_title rt title = safe_title rt title')
   \<and> safe_title rt (safe_title rt title) = safe_title rt title"
  by (simp add: safe_title_idem)

theorem safe_title_deterministic_idempotent_witness:
  "U ''Hello, World!'' = U ''Hello, World!''
   \<and> safe_title ascii_runtime (U ''Hello, World!'') = U ''Hello-World''
   \<and> safe_title ascii_runtime (U ''Hello-World'') = U ''Hello-World''"
proof -
  have e: "safe_title ascii_runtime (U ''Hello, World!'') = U ''Hello-World''"
    by (simp add: sanitize_eval)
  from safe_title_deterministic_idempotent [of "U ''Hello, World!''" "U ''Hello, World!''" ascii_runtime]
  show ?thesis unfolding e by simp
qed

subsection \<open>Numbers and paths in file names\<close>

lemma dec_1: "dec (Suc 0) = U ''1''"
  by (simp add: dec.simps)

lemma fmt03d_1: "fmt03d (Suc 0) = U ''001''"
  by (simp add: fmt03d_def dec_1 numeral_3_eq_3)

lemma dec_digits: "c \<in> set (dec n) \<Longrightarrow> 48 \<le> c \<and> c \<le> 57"
proof (induction n rule: dec.induct)
  case (1 n)
  show ?case
  proof (cases "n < 10")
    case True
    with 1(2) show ?thesis by (simp add: dec.simps)
  next
    case False
    from 1(2) False have "c \<in> set (dec (n div 10)) \<or> c = 48 + n mod 10"
      by (subst (asm) dec.simps) auto
    then show ?thesis
    proof
      assume "c \<in> set (dec (n div 10))"
      with 1(1) False show ?thesis by simp
    next
      assume "c = 48 + n mod 10"
      moreover have "n mod 10 < 10" by simp
      ultimately show ?thesis by linarith
    qed
  qed
qed

lemma dec_nonempty: "dec n \<noteq> []"
  by (subst dec.simps) simp

lemma fmt03d_digits: "c \<in> set (fmt03d i) \<Longrightarrow> 48 \<le> c \<and> c \<le> 57"
  unfolding fmt03d_def using dec_digits by (auto split: if_splits)

lemma fmt03d_nonempty: "fmt03d i \<noteq> []"
  by (simp add: fmt03d_def dec_nonempty)

lemma safe_title_no_slash: "slash \<notin> set (safe_title rt t)"
proof
  assume "slash \<in> set (safe_title rt t)"
  from safe_title_chars [OF this] show False
    by (simp add: is_word_def ascii_alnum_def)
qed

lemma filename_no_slash: "slash \<notin> set (fmt03d i @ U ''-'' @ safe_title rt t @ U ''.%(ext)s'')"
  using fmt03d_digits [of slash i] safe_title_no_slash [of rt t] by auto

lemma basename_join:
  assumes "name \<noteq> []" and "slash \<notin> set name"
  shows "basename (path_join download_dir name) = name"
proof -
  from assms have h: "hd name \<noteq> slash" by (cases name) auto
  have d: "download_dir \<noteq> [] \<and> last download_dir \<noteq> slash"
    by (simp add: download_dir_def)
  from assms h d have j: "path_join download_dir name = download_dir @ [slash] @ name"
    by (simp add: path_join_def)
  have "takeWhile (\<lambda>c. c \<noteq> slash) (rev name @ slash # rev download_dir) = rev name"
    using assms(2) by (auto simp: takeWhile_tail)
  then show ?thesis by (simp add: j basename_def)
qed

lemma s2_out_path:
  "basename (path_join download_dir (fmt03d i @ U ''-'' @ safe_title rt t @ U ''.%(ext)s''))
     = fmt03d i @ U ''-'' @ safe_title rt t @ U ''.%(ext)s''"
  by (rule basename_join) (use fmt03d_nonempty filename_no_slash in auto)

subsection \<open>The input file of aria2c\<close>

lemma write_loop_closed:
  assumes "\<forall>(k, v)\<in>set (enumerate i vs). body k v = Inr (g k v)"
  shows "write_loop body i vs f = Inr (f @ concat (map (\<lambda>(k, v). g k v) (enumerate i vs)))"
  using assms by (induction vs arbitrary: i f) auto

lemma write_loop_error:
  assumes "\<forall>(k, v)\<in>set (enumerate i vs). body k v = Inr (g k v) \<or> body k v = Inl e"
      and "\<exists>(k, v)\<in>set (enumerate i vs). body k v = Inl e"
  shows "write_loop body i vs f = Inl e"
  using assms
proof (induction vs arbitrary: i f)
  case Nil
  then show ?case by simp
next
  case (Cons v vs)
  show ?case
  proof (cases "body i v")
    case (Inl a)
    with Cons.prems(1) have "a = e" by auto
    with Inl show ?thesis by simp
  next
    case (Inr w)
    with Cons.prems(2) have "\<exists>(k, v)\<in>set (enumerate (Suc i) vs). body k v = Inl e" by auto
    moreover from Cons.prems(1)
    have "\<forall>(k, v)\<in>set (enumerate (Suc i) vs). body k v = Inr (g k v) \<or> body k v = Inl e" by auto
    ultimately have "write_loop body (Suc i) vs (f @ w) = Inl e" by (rule Cons.IH [rotated])
    with Inr show ?thesis by simp
  qed
qed

lemma title_ok_get:
  assumes "title_ok video"
  shows "\<exists>d. video = JObj d \<and> dict_get d (U ''title'') (JStr (U ''Video '' @ dec i)) = JStr (title_of i video)"
  using assms
  by (auto simp: title_ok_def title_of_def dict_get_def split: json.splits option.splits)

lemma has_url_subscript:
  assumes "video = JObj d"
  shows "subscript video (U ''url'') = (if has_url video then Inr (url_of video) else Inl KeyError)"
  using assms by (auto simp: has_url_def url_of_def split: option.splits)

lemma qs_entry_title_ok:
  assumes "title_ok video"
  shows "qs_entry rt i video = (if has_url video then Inr (aria_lines rt [] i video) else Inl KeyError)"
proof -
  from title_ok_get [OF assms, of i] obtain d where
    d: "video = JObj d" and t: "dict_get d (U ''title'') (JStr (U ''Video '' @ dec i)) = JStr (title_of i video)"
    by blast
  have g: "get video (U ''title'') (JStr (U ''Video '' @ dec i)) = Inr (JStr (title_of i video))"
    using d t by simp
  show ?thesis
    unfolding qs_entry_def g has_url_subscript [OF d]
    by (simp add: aria_lines_def filename_of_def unlines_def)
qed

lemma master_entry_title_ok:
  assumes "title_ok video"
  shows "master_entry rt i video =
           (if has_url video then Inr (aria_lines rt (U ''n'') i video) else Inl KeyError)"
proof -
  from title_ok_get [OF assms, of i] obtain d where
    d: "video = JObj d" and t: "dict_get d (U ''title'') (JStr (U ''Video '' @ dec i)) = JStr (title_of i video)"
    by blast
  have g: "get video (U ''title'') (JStr (U ''Video '' @ dec i)) = Inr (JStr (title_of i video))"
    using d t by simp
  show ?thesis
    unfolding master_entry_def g has_url_subscript [OF d]
    by (simp add: aria_lines_def filename_of_def unlines_def)
qed

lemma s2_entry_title_ok:
  assumes "title_ok video"
  shows "s2_entry rt i video = (if has_url video then Inr (aria_lines rt [] i video) else Inl KeyError)"
proof -
  from title_ok_get [OF assms, of i] obtain d where
    d: "video = JObj d" and t: "dict_get d (U ''title'') (JStr (U ''Video '' @ dec i)) = JStr (title_of i video)"
    by blast
  have g: "get video (U ''title'') (JStr (U ''Video '' @ dec i)) = Inr (JStr (title_of i video))"
    using d t by simp
  show ?thesis
    unfolding s2_entry_def g has_url_subscript [OF d]
    using s2_out_path [of i rt "title_of i video"]
    by (simp add: aria_lines_def filename_of_def unlines_def Let_def)
qed

lemma record_ok_enumerate:
  assumes "\<forall>v\<in>set vs. record_ok v" and "(k, v) \<in> set (enumerate i vs)"
  shows "title_ok v \<and> has_url v"
  using assms by (auto simp: record_ok_def in_set_enumerate_eq)

lemma qs_loop_closed:
  assumes "\<forall>v\<in>set vs. record_ok v"
  shows "write_loop (qs_entry rt) i vs f =
           Inr (f @ concat (map (\<lambda>(k, v). aria_lines rt [] k v) (enumerate i vs)))"
  by (rule write_loop_closed) (use record_ok_enumerate [OF assms] qs_entry_title_ok in auto)

lemma master_loop_closed:
  assumes "\<forall>v\<in>set vs. record_ok v"
  shows "write_loop (master_entry rt) i vs f =
           Inr (f @ concat (map (\<lambda>(k, v). aria_lines rt (U ''n'') k v) (enumerate i vs)))"
  by (rule write_loop_closed) (use record_ok_enumerate [OF assms] master_entry_title_ok in auto)

lemma s2_loop_closed:
  assumes "\<forall>v\<in>set vs. record_ok v"
  shows "write_loop (s2_entry rt) i vs f =
           Inr (f @ concat (map (\<lambda>(k, v). aria_lines rt [] k v) (enumerate i vs)))"
  by (rule write_loop_closed) (use record_ok_enumerate [OF assms] s2_entry_title_ok in auto)

lemma qs_loop_KeyError:
  assumes "\<forall>v\<in>set vs. title_ok v" and "\<exists>v\<in>set vs. \<not> has_url v"
  shows "write_loop (qs_entry rt) i vs f = Inl KeyError"
proof (rule write_loop_error [where g = "aria_lines rt []"])
  show "\<forall>(k, v)\<in>set (enumerate i vs).
          qs_entry rt k v = Inr (aria_lines rt [] k v) \<or> qs_entry rt k v = Inl KeyError"
    using assms(1) by (auto simp: in_set_enumerate_eq qs_entry_title_ok split: if_splits)
  from assms(2) obtain v where v: "v \<in> set vs" "\<not> has_url v" by blast
  then obtain n where n: "n < length vs" "vs ! n = v" by (auto simp: in_set_conv_nth)
  then have "(i + n, v) \<in> set (enumerate i vs)" by (auto simp: in_set_enumerate_eq)
  moreover have "qs_entry rt (i + n) v = Inl KeyError"
    using assms(1) v by (simp add: qs_entry_title_ok)
  ultimately show "\<exists>(k, v)\<in>set (enumerate i vs). qs_entry rt k v = Inl KeyError" by blast
qed


lemma qs_entry_ok:
  assumes "map_of d (U ''url'') = Some url"
      and "dict_get d (U ''title'') (JStr (U ''Video '' @ dec i)) = JStr t"
  shows "qs_entry rt i (JObj d) =
           Inr (unlines [format rt url, U ''  out='' @ fmt03d i @ U ''-'' @ safe_title rt t @ U ''.%(ext)s'', []])"
  using assms by (simp add: qs_entry_def unlines_def)

lemma master_entry_ok:
  assumes "map_of d (U ''url'') = Some url"
      and "dict_get d (U ''title'') (JStr (U ''Video '' @ dec i)) = JStr t"
  shows "master_entry rt i (JObj d) =
           Inr (unlines [format rt url, U ''  out='' @ fmt03d i @ U ''-'' @ safe_title rt t @ U ''.%(ext)s'', U ''n''])"
  using assms by (simp add: master_entry_def unlines_def)

lemma qs_download_decoded:
  assumes "video_data_in fs (JObj obj)" and "map_of obj (U ''videos'') = Some (JArr vs)" and "vs \<noteq> []"
  shows "qs_download_with_aria2c rt fs aria =
           (case write_loop (qs_entry rt) 1 vs [] of
              Inl e \<Rightarrow> Inl e
            | Inr content \<Rightarrow>
                Inr [WriteFile (U ''aria2_downloads.txt'') content, Run qs_cmd None,
                     (case aria of
                        Exited rc \<Rightarrow> Print (U ''DOWNLOAD COMPLETE!'')
                      | NotFound \<Rightarrow> Print (U ''aria2c not found. Install with: brew install aria2c'')
                      | _ \<Rightarrow> Print (U ''Error''))])"
proof -
  have g: "get (JObj obj) (U ''videos'') (JArr []) = Inr (JArr vs)"
    using assms(2) by (simp add: dict_get_def)
  from assms(1) show ?thesis
    unfolding video_data_in_def
  proof
    assume "fs (U ''grantcardone_complete.json'') = Decoded (JObj obj)"
    with g assms(3) show ?thesis
      unfolding qs_download_with_aria2c_def by (simp del: get.simps)
  next
    assume "fs (U ''grantcardone_complete.json'') = Missing
              \<and> fs (U ''grantcardone_videos.json'') = Decoded (JObj obj)"
    with g assms(3) show ?thesis
      unfolding qs_download_with_aria2c_def by (simp del: get.simps)
  qed
qed

text \<open>With processable records \<open>QuickStart.run\<close> writes the configuration, then the
  input file with three lines per record, the third blank, and runs \<open>aria2c\<close> once.\<close>

lemma qs_run_trace:
  assumes "video_data_in fs (JObj obj)" and "map_of obj (U ''videos'') = Some (JArr vs)" and "vs \<noteq> []"
      and "\<forall>v\<in>set vs. record_ok v"
  shows "\<exists>report. qs_run rt fs dir aria =
           Inr [WriteFile (U ''aria2.conf'') (qs_config dir),
                WriteFile (U ''aria2_downloads.txt'')
                  (concat (map (\<lambda>(k, v). aria_lines rt [] k v) (enumerate 1 vs))),
                Run qs_cmd None, Print report]"
proof -
  have e: "fs (U ''grantcardone_complete.json'') \<noteq> Missing \<or> fs (U ''grantcardone_videos.json'') \<noteq> Missing"
    using assms(1) by (auto simp: video_data_in_def)
  have "\<exists>report. qs_download_with_aria2c rt fs aria =
           Inr [WriteFile (U ''aria2_downloads.txt'')
                  (concat (map (\<lambda>(k, v). aria_lines rt [] k v) (enumerate 1 vs))),
                Run qs_cmd None, Print report]"
    unfolding qs_download_decoded [OF assms(1,2,3)] qs_loop_closed [OF assms(4)]
    by (cases aria) simp_all
  then obtain report where "qs_download_with_aria2c rt fs aria =
           Inr [WriteFile (U ''aria2_downloads.txt'')
                  (concat (map (\<lambda>(k, v). aria_lines rt [] k v) (enumerate 1 vs))),
                Run qs_cmd None, Print report]" by blast
  with e show ?thesis
    unfolding qs_run_def qs_setup_aria2c_def by simp
qed

text \<open>So does \<open>AutomatedScraper.download_with_aria2c\<close>, when \<open>aria2c\<close> exits or is
  not found.\<close>

lemma s2_download_trace:
  assumes "vs \<noteq> []" and "\<forall>v\<in>set vs. record_ok v" and "aria = Exited rc \<or> aria = NotFound"
  shows "\<exists>report. s2_download_with_aria2c rt dir (JArr vs) aria =
           Inr [WriteFile (U ''aria2.conf'') (s2_config dir),
                WriteFile (U ''aria2_downloads.txt'')
                  (concat (map (\<lambda>(k, v). aria_lines rt [] k v) (enumerate 1 vs))),
                Run s2_cmd None, Print report]"
  using assms(1,3) unfolding s2_download_with_aria2c_def
  by (auto simp: s2_loop_closed [OF assms(2)])

text \<open>\<open>create_aria2_input_file\<close> writes a third line \<open>n\<close> instead.\<close>

lemma create_aria2_input_file_closed:
  assumes "\<forall>v\<in>set vs. record_ok v"
  shows "create_aria2_input_file rt (JArr vs) =
           Inr (concat (map (\<lambda>(k, v). aria_lines rt (U ''n'') k v) (enumerate 1 vs)))"
  by (simp add: create_aria2_input_file_def master_loop_closed [OF assms])

text \<open>
  C2. The input file of \<open>GrantCardoneMaster.create_aria2_input_file\<close> for the single
  record \<open>{"url": "http://x/a.mp4", "title": "A"}\<close>: the line after the \<open>out=\<close> line is
  \<open>n\<close>, not blank.
\<close>

theorem create_aria2_input_file_stray_line:
  "create_aria2_input_file ascii_runtime (JArr [JObj example_video])
   = Inr (unlines [U ''http://x/a.mp4'', U ''  out=001-A.%(ext)s'', U ''n''])"
  by (simp add: create_aria2_input_file_def master_entry_def dict_get_def fmt03d_1 unlines_def
        example_video_def sanitize_eval)

subsection \<open>Loading the video data\<close>

lemma no_video_data_cases:
  assumes "no_video_data st"
  shows "st = Missing \<or> st = Malformed
         \<or> (\<exists>obj. st = Decoded (JObj obj) \<and> map_of obj (U ''videos'') = Some (JArr []))"
  using assms by (cases st rule: no_video_data.cases) auto

lemma get_empty_videos:
  assumes "map_of obj (U ''videos'') = Some (JArr [])"
  shows "get (JObj obj) (U ''videos'') dflt = Inr (JArr [])"
  using assms by (simp add: dict_get_def)

lemma dec_0: "dec 0 = U ''0''"
  by (simp add: dec.simps)

lemma process_items_keys: "process_items rt (map (\<lambda>kv. JStr (fst kv)) d) acc = Inr acc"
  by (induction d) auto

lemma qs_no_video_data:
  assumes "no_video_data (fs (U ''grantcardone_complete.json''))"
      and "no_video_data (fs (U ''grantcardone_videos.json''))"
  shows "qs_download_with_aria2c rt fs aria \<in>
           {Inr [Print (U ''No video data file found. Complete Steps 1 & 2 first.'')],
            Inr [Print (U ''Invalid video data file'')],
            Inr [Print (U ''No videos found in data file'')]}"
  using no_video_data_cases [OF assms(1)] no_video_data_cases [OF assms(2)]
  unfolding qs_download_with_aria2c_def
  by (auto simp: dict_get_def)

lemma load_complete_no_video_data:
  assumes "no_video_data (fs (U ''grantcardone_complete.json''))"
  shows "load_complete_data fs \<in>
           {Inr ([Print (U ''grantcardone_complete.json not found'')], JArr []),
            Inr ([Print (U ''Invalid JSON in grantcardone_complete.json'')], JArr []),
            Inr ([Print (U ''Loaded 0 videos from automation'')], JArr [])}"
  using no_video_data_cases [OF assms]
  unfolding load_complete_data_def
  by (auto simp: dict_get_def dec_0)

lemma s2_run_no_video_data:
  assumes "no_video_data (fs (U ''grantcardone_complete.json''))"
  shows "\<exists>report. s2_run rt fs dir js aria =
           Inr [Print report, WriteFile (U ''complete_automation.js'') js,
                Print (U ''AUTOMATION SCRIPT READY'')]"
  using load_complete_no_video_data [of fs] assms
  unfolding s2_run_def by auto

lemma collected_no_video_data:
  assumes "no_video_data (fs (U ''grantcardone_videos.json''))"
      and "no_video_data (fs (U ''found_videos.json''))"
  shows "download_collected_videos rt fs env \<in>
           {Inr [Print (U ''No video data file found'')],
            Inr [Print (U ''found_videos.json not found'')],
            Inr [Print (U ''Invalid JSON in found_videos.json'')],
            Inr [Print (U ''No videos found in found_videos.json'')]}"
  using no_video_data_cases [OF assms(1)] no_video_data_cases [OF assms(2)]
  unfolding download_collected_videos_def
  by (auto simp: dict_get_def)

lemma check_stage2_no_video_data:
  assumes "no_video_data (fs (U ''grantcardone_complete.json''))"
      and "no_video_data (fs (U ''grantcardone_videos.json''))"
  shows "check_stage2_complete fs = Inr ([Print (U ''Stage 2 data not found or invalid'')], None)"
  using no_video_data_cases [OF assms(1)] no_video_data_cases [OF assms(2)]
  unfolding check_stage2_complete_def
  by (auto simp: dict_get_def)

lemma load_video_data_no_video_data:
  assumes "no_video_data (fs (U ''video_data.json''))"
  shows "load_video_data rt fs \<in>
           {Inr ([Print (U ''Error: video_data.json file not found'')], []),
            Inr ([Print (U ''Error: Invalid JSON in video_data.json'')], []),
            Inr ([], [])}"
  using no_video_data_cases [OF assms]
  unfolding load_video_data_def process_video_data_def
  by (auto simp: process_items_keys)

text \<open>
  When every input file is absent, rejected by the JSON decoder, or an object with an
  empty \<open>videos\<close> list, each loading step returns without a download, with these
  reports and results.
\<close>

lemma no_video_data_reports:
  assumes "\<forall>p. no_video_data (fs p)"
  shows "qs_download_with_aria2c rt fs aria \<in>
           {Inr [Print (U ''No video data file found. Complete Steps 1 & 2 first.'')],
            Inr [Print (U ''Invalid video data file'')],
            Inr [Print (U ''No videos found in data file'')]}
         \<and> load_complete_data fs \<in>
           {Inr ([Print (U ''grantcardone_complete.json not found'')], JArr []),
            Inr ([Print (U ''Invalid JSON in grantcardone_complete.json'')], JArr []),
            Inr ([Print (U ''Loaded 0 videos from automation'')], JArr [])}
         \<and> (\<exists>report. s2_run rt fs dir js aria =
               Inr [Print report, WriteFile (U ''complete_automation.js'') js,
                    Print (U ''AUTOMATION SCRIPT READY'')])
         \<and> download_collected_videos rt fs env \<in>
           {Inr [Print (U ''No video data file found'')],
            Inr [Print (U ''found_videos.json not found'')],
            Inr [Print (U ''Invalid JSON in found_videos.json'')],
            Inr [Print (U ''No videos found in found_videos.json'')]}
         \<and> check_stage2_complete fs = Inr ([Print (U ''Stage 2 data not found or invalid'')], None)
         \<and> load_video_data rt fs \<in>
           {Inr ([Print (U ''Error: video_data.json file not found'')], []),
            Inr ([Print (U ''Error: Invalid JSON in video_data.json'')], []),
            Inr ([], [])}"
  using assms qs_no_video_data [of fs rt aria] load_complete_no_video_data [of fs]
    s2_run_no_video_data [of fs rt dir js aria] collected_no_video_data [of fs rt env]
    check_stage2_no_video_data [of fs] load_video_data_no_video_data [of fs rt]
  by blast

text \<open>A file whose reading fails with another exception than \<open>JSONDecodeError\<close> is
  caught by none of the loading steps.\<close>

lemma unreadable_not_caught:
  assumes "\<forall>p. fs p = Unreadable"
  shows "qs_download_with_aria2c rt fs aria = Inl UncaughtError
         \<and> load_complete_data fs = Inl UncaughtError
         \<and> download_collected_videos rt fs env = Inl UncaughtError
         \<and> check_stage2_complete fs = Inl UncaughtError
         \<and> load_video_data rt fs = Inl UncaughtError"
  using assms
  by (simp add: qs_download_with_aria2c_def load_complete_data_def download_collected_videos_def
        check_stage2_complete_def load_video_data_def)

text \<open>
  C4. \<open>found_videos.json\<close> holding the empty list \<open>[]\<close>, the form in which the browser
  script of \<open>interactive_extractor.py\<close> prints a page without videos:
  \<open>download_collected_videos\<close> does not report and return, it ends in
  \<open>AttributeError\<close>, raised by \<open>data.get('videos', data)\<close> and caught by no handler.
\<close>

theorem download_collected_empty_bare_list:
  "download_collected_videos ascii_runtime (found_file (JArr [])) (\<lambda>k. Exited 0) = Inl AttributeError"
  by (simp add: download_collected_videos_def found_file_def)

subsection \<open>A file with one record\<close>

text \<open>
  C9 (as the code has it). A video file \<open>{"videos": [v]}\<close> whose one record has a
  \<open>url\<close> and a string (or no) \<open>title\<close>: \<open>QuickStart.download_with_aria2c\<close> writes one
  URL line, one \<open>out=\<close> line whose file name begins with \<open>001-\<close>, and a blank line;
  \<open>check_stage2_complete\<close> returns the one record, and the file of
  \<open>create_aria2_input_file\<close> begins with the same URL line and \<open>out=\<close> line. The
  loading of \<open>video_data.json\<close> reads a list of items with \<open>src\<close>: from the list of one
  such item it makes one record named \<open>001-\<close>, from an object \<open>{"videos": [v]}\<close> none.
\<close>

theorem single_video_entry:
  assumes data: "map_of obj (U ''videos'') = Some (JArr [JObj d])"
      and url: "map_of d (U ''url'') = Some url"
      and title: "dict_get d (U ''title'') (JStr (U ''Video 1'')) = JStr t"
      and fsh: "video_data_in fs (JObj obj)"
      and obj_file: "objfs (U ''video_data.json'') = Decoded (JObj obj)"
      and list_file: "listfs (U ''video_data.json'') = Decoded (JArr [JObj item])"
      and src: "map_of item (U ''src'') = Some src" and src_true: "truthy src"
      and item_title: "dict_get item (U ''title'') (JStr (U ''Video 1'')) = JStr t2"
  shows "(\<exists>report. qs_download_with_aria2c rt fs aria =
            Inr [WriteFile (U ''aria2_downloads.txt'')
                   (unlines [format rt url, U ''  out=001-'' @ safe_title rt t @ U ''.%(ext)s'', []]),
                 Run qs_cmd None, Print report])
         \<and> check_stage2_complete fs =
             Inr ([Print (U ''Stage 2 complete: 1 videos found'')], Some (JArr [JObj d]))
         \<and> (\<exists>rest. create_aria2_input_file rt (JArr [JObj d]) =
             Inr (unlines [format rt url, U ''  out=001-'' @ safe_title rt t @ U ''.%(ext)s''] @ rest))
         \<and> load_video_data rt objfs = Inr ([], [])
         \<and> load_video_data rt listfs =
             Inr ([], [\<lparr>vi_title = t2, vi_filename = U ''001-'' @ safe_title rt t2, vi_url = src,
                         vi_type = dict_get item (U ''type'') (JStr (U ''unknown''))\<rparr>])"
proof -
  from title have t1: "dict_get d (U ''title'') (JStr (U ''Video '' @ dec 1)) = JStr t"
    by (simp add: dec_1)
  have q: "write_loop (qs_entry rt) 1 [JObj d] [] =
             Inr (unlines [format rt url, U ''  out=001-'' @ safe_title rt t @ U ''.%(ext)s'', []])"
    using qs_entry_ok [OF url t1, of rt] by (simp add: fmt03d_1 unlines_def)
  have m: "write_loop (master_entry rt) 1 [JObj d] [] =
             Inr (unlines [format rt url, U ''  out=001-'' @ safe_title rt t @ U ''.%(ext)s''] @ unlines [U ''n''])"
    using master_entry_ok [OF url t1, of rt] by (simp add: fmt03d_1 unlines_def)
  have g: "get (JObj obj) (U ''videos'') (JArr []) = Inr (JArr [JObj d])"
    using data by (simp add: dict_get_def)
  have 1: "\<exists>report. qs_download_with_aria2c rt fs aria =
            Inr [WriteFile (U ''aria2_downloads.txt'')
                   (unlines [format rt url, U ''  out=001-'' @ safe_title rt t @ U ''.%(ext)s'', []]),
                 Run qs_cmd None, Print report]"
  proof -
    have nn: "[JObj d] \<noteq> []" by simp
    show ?thesis
      unfolding qs_download_decoded [OF fsh data nn, of rt aria] q
      by (cases aria) simp_all
  qed
  have 2: "check_stage2_complete fs =
             Inr ([Print (U ''Stage 2 complete: 1 videos found'')], Some (JArr [JObj d]))"
    using fsh g unfolding check_stage2_complete_def video_data_in_def
    by (auto simp: dec_1 simp del: get.simps)
  have 3: "\<exists>rest. create_aria2_input_file rt (JArr [JObj d]) =
             Inr (unlines [format rt url, U ''  out=001-'' @ safe_title rt t @ U ''.%(ext)s''] @ rest)"
    unfolding create_aria2_input_file_def py_iter.simps sum.case m by blast
  have 4: "load_video_data rt objfs = Inr ([], [])"
    using obj_file by (simp add: load_video_data_def process_video_data_def process_items_keys)
  have "process_items rt [JObj item] [] =
          Inr [\<lparr>vi_title = t2, vi_filename = U ''001-'' @ safe_title rt t2, vi_url = src,
                 vi_type = dict_get item (U ''type'') (JStr (U ''unknown''))\<rparr>]"
    using src src_true item_title by (simp add: dict_get_def dec_1 fmt03d_1 Let_def)
  with list_file have 5: "load_video_data rt listfs =
             Inr ([], [\<lparr>vi_title = t2, vi_filename = U ''001-'' @ safe_title rt t2, vi_url = src,
                         vi_type = dict_get item (U ''type'') (JStr (U ''unknown''))\<rparr>])"
    by (simp add: load_video_data_def process_video_data_def)
  from 1 2 3 4 5 show ?thesis by blast
qed

theorem single_video_entry_witness:
  "map_of example_video (U ''url'') = Some (JStr (U ''http://x/a.mp4''))
   \<and> dict_get example_video (U ''title'') (JStr (U ''Video 1'')) = JStr (U ''A'')
   \<and> video_data_in (videos_file [JObj example_video]) (JObj [(U ''videos'', JArr [JObj example_video])])
   \<and> map_of [(U ''src'', JStr (U ''http://x/a.mp4''))] (U ''src'') = Some (JStr (U ''http://x/a.mp4''))
   \<and> truthy (JStr (U ''http://x/a.mp4''))
   \<and> (\<exists>report. qs_download_with_aria2c ascii_runtime (videos_file [JObj example_video]) (Exited 0) =
            Inr [WriteFile (U ''aria2_downloads.txt'')
                   (unlines [U ''http://x/a.mp4'', U ''  out=001-A.%(ext)s'', []]),
                 Run qs_cmd None, Print report])
   \<and> download_entries (unlines [U ''http://x/a.mp4'', U ''  out=001-A.%(ext)s'', []])
       = [U ''http://x/a.mp4'']
   \<and> check_stage2_complete (videos_file [JObj example_video]) =
       Inr ([Print (U ''Stage 2 complete: 1 videos found'')], Some (JArr [JObj example_video]))
   \<and> load_video_data ascii_runtime (video_data_file (JArr [JObj [(U ''src'', JStr (U ''http://x/a.mp4''))]])) =
       Inr ([], [\<lparr>vi_title = U ''Video 1'', vi_filename = U ''001-Video-1'',
                   vi_url = JStr (U ''http://x/a.mp4''), vi_type = JStr (U ''unknown'')\<rparr>])"
proof -
  let ?item = "[(U ''src'', JStr (U ''http://x/a.mp4''))]"
  have h1: "map_of [(U ''videos'', JArr [JObj example_video])] (U ''videos'') = Some (JArr [JObj example_video])"
    by simp
  have h2: "map_of example_video (U ''url'') = Some (JStr (U ''http://x/a.mp4''))"
    by (simp add: example_video_def)
  have h3: "dict_get example_video (U ''title'') (JStr (U ''Video 1'')) = JStr (U ''A'')"
    by (simp add: example_video_def dict_get_def)
  have h4: "video_data_in (videos_file [JObj example_video]) (JObj [(U ''videos'', JArr [JObj example_video])])"
    by (simp add: video_data_in_def videos_file_def)
  have h5: "video_data_file (JObj [(U ''videos'', JArr [JObj example_video])]) (U ''video_data.json'')
              = Decoded (JObj [(U ''videos'', JArr [JObj example_video])])"
    by (simp add: video_data_file_def)
  have h6: "video_data_file (JArr [JObj ?item]) (U ''video_data.json'') = Decoded (JArr [JObj ?item])"
    by (simp add: video_data_file_def)
  have h7: "map_of ?item (U ''src'') = Some (JStr (U ''http://x/a.mp4''))" by simp
  have h8: "truthy (JStr (U ''http://x/a.mp4''))" by simp
  have h9: "dict_get ?item (U ''title'') (JStr (U ''Video 1'')) = JStr (U ''Video 1'')"
    by (simp add: dict_get_def)
  have s: "safe_title ascii_runtime (U ''A'') = U ''A''"
          "safe_title ascii_runtime (U ''Video 1'') = U ''Video-1''"
    by (simp_all add: sanitize_eval)
  have e: "download_entries (unlines [U ''http://x/a.mp4'', U ''  out=001-A.%(ext)s'', []])
             = [U ''http://x/a.mp4'']"
    by (simp add: download_entries_def unlines_def is_uri_line_def)
  have u: "dict_get ?item (U ''type'') (JStr (U ''unknown'')) = JStr (U ''unknown'')"
    by (simp add: dict_get_def)
  from single_video_entry
         [where objfs = "video_data_file (JObj [(U ''videos'', JArr [JObj example_video])])"
            and listfs = "video_data_file (JArr [JObj ?item])"
            and rt = ascii_runtime and aria = "Exited 0",
          OF h1 h2 h3 h4 h5 h6 h7 h8 h9]
  have "(\<exists>report. qs_download_with_aria2c ascii_runtime (videos_file [JObj example_video]) (Exited 0) =
            Inr [WriteFile (U ''aria2_downloads.txt'')
                   (unlines [U ''http://x/a.mp4'', U ''  out=001-A.%(ext)s'', []]),
                 Run qs_cmd None, Print report])
   \<and> check_stage2_complete (videos_file [JObj example_video]) =
       Inr ([Print (U ''Stage 2 complete: 1 videos found'')], Some (JArr [JObj example_video]))
   \<and> load_video_data ascii_runtime (video_data_file (JArr [JObj ?item])) =
       Inr ([], [\<lparr>vi_title = U ''Video 1'', vi_filename = U ''001-Video-1'',
                   vi_url = JStr (U ''http://x/a.mp4''), vi_type = JStr (U ''unknown'')\<rparr>])"
    unfolding s u by simp
  with h2 h3 h4 h7 h8 e show ?thesis by blast
qed

text \<open>
  Two files for which the claim as stated fails: \<open>video_data.json\<close> holding
  \<open>{"videos": [v]}\<close> gives no record, and the input file that
  \<open>create_aria2_input_file\<close> writes for one record names two downloads for \<open>aria2c\<close>,
  the URL and \<open>n\<close>.
\<close>

theorem single_video_counterexample:
  "load_video_data ascii_runtime (video_data_file (JObj [(U ''videos'', JArr [JObj example_video])]))
     = Inr ([], [])
   \<and> map_sum id download_entries (create_aria2_input_file ascii_runtime (JArr [JObj example_video]))
     = Inr [U ''http://x/a.mp4'', U ''n'']"
proof -
  have 1: "load_video_data ascii_runtime (video_data_file (JObj [(U ''videos'', JArr [JObj example_video])]))
     = Inr ([], [])"
    by (simp add: load_video_data_def video_data_file_def process_video_data_def)
  have c: "create_aria2_input_file ascii_runtime (JArr [JObj example_video])
             = Inr (unlines [U ''http://x/a.mp4'', U ''  out=001-A.%(ext)s'', U ''n''])"
    by (simp add: create_aria2_input_file_def master_entry_def dict_get_def fmt03d_1 unlines_def
          example_video_def sanitize_eval)
  have e: "download_entries (unlines [U ''http://x/a.mp4'', U ''  out=001-A.%(ext)s'', U ''n''])
             = [U ''http://x/a.mp4'', U ''n'']"
    by (simp add: download_entries_def unlines_def is_uri_line_def)
  from 1 e show ?thesis unfolding c by simp
qed

subsection \<open>The download loops of yt-dlp\<close>

lemma ie_step_record_ok:
  assumes "record_ok video"
  shows "ie_step rt oc i video =
           Inr (ie_events rt i video,
                (if \<not> is_lesson_link video \<and> str_url video \<and> oc = Exited 0 then 1 else 0),
                (if \<not> is_lesson_link video \<and> \<not> (str_url video \<and> oc = Exited 0) then 1 else 0))"
proof -
  from assms have tk: "title_ok video" and hu: "has_url video" by (simp_all add: record_ok_def)
  from title_ok_get [OF tk, of i] obtain d where
    d: "video = JObj d" and t: "dict_get d (U ''title'') (JStr (U ''Video '' @ dec i)) = JStr (title_of i video)"
    by blast
  have g: "get video (U ''title'') (JStr (U ''Video '' @ dec i)) = Inr (JStr (title_of i video))"
    using d t by simp
  have u: "subscript video (U ''url'') = Inr (url_of video)"
    using has_url_subscript [OF d] hu by simp
  have ty: "get video (U ''type'') JNull = Inr (dict_get d (U ''type'') JNull)"
    using d by simp
  have l: "is_lesson_link video \<longleftrightarrow> dict_get d (U ''type'') JNull = JStr (U ''lesson-link'')"
    unfolding is_lesson_link_def ty by simp
  have su: "str_url video \<longleftrightarrow> (\<exists>s. url_of video = JStr s)"
    unfolding str_url_def u by (cases "url_of video") simp_all
  have step: "ie_step rt oc i video =
      (if is_lesson_link video then Inr ([], 0, 0)
       else case url_of video of
              JStr u \<Rightarrow>
                (case oc of
                   Exited rc \<Rightarrow>
                     if rc = 0 then Inr ([Run (ie_cmd (ie_output_path rt i video) u) (Some 300), Sleep 2], 1, 0)
                     else Inr ([Run (ie_cmd (ie_output_path rt i video) u) (Some 300), Sleep 2], 0, 1)
                 | _ \<Rightarrow> Inr ([Run (ie_cmd (ie_output_path rt i video) u) (Some 300), Sleep 2], 0, 1))
            | _ \<Rightarrow> Inr ([Sleep 2], 0, 1))"
    unfolding ie_step_def g u ty l ie_output_path_def filename_of_def
    by (simp add: Let_def split: json.split outcome.split)
  show ?thesis
  proof (cases "is_lesson_link video")
    case True
    then show ?thesis unfolding step by (simp add: ie_events_def)
  next
    case False
    note nl = this
    show ?thesis
    proof (cases "url_of video")
      case (JStr s)
      with su have "str_url video" by simp
      with nl JStr show ?thesis
        unfolding step
        by (cases oc) (simp_all add: ie_events_def str_of_def)
    qed (use nl su in \<open>simp_all add: step ie_events_def\<close>)
  qed
qed

lemma ie_loop_closed:
  assumes "\<forall>v\<in>set vs. record_ok v"
  shows "ie_loop rt env i vs (tr, s, f) =
           Inr (tr @ concat (map (\<lambda>(k, v). ie_events rt k v) (enumerate i vs)),
                s + length (filter (\<lambda>(k, v). \<not> is_lesson_link v \<and> ie_succeeds env k v) (enumerate i vs)),
                f + length (filter (\<lambda>(k, v). \<not> is_lesson_link v \<and> \<not> ie_succeeds env k v) (enumerate i vs)))"
  using assms
proof (induction vs arbitrary: i tr s f)
  case Nil
  show ?case by simp
next
  case (Cons v vs)
  from Cons.prems have ok: "record_ok v" and rest: "\<forall>v\<in>set vs. record_ok v" by simp_all
  show ?case
    by (simp add: ie_step_record_ok [OF ok] Cons.IH [OF rest] ie_succeeds_def)
qed

lemma download_collected_decoded:
  assumes "collected_in fs (JObj obj)" and "map_of obj (U ''videos'') = Some (JArr vs)" and "vs \<noteq> []"
  shows "download_collected_videos rt fs env =
           (case ie_loop rt env 1 vs ([], 0, 0) of
              Inl e \<Rightarrow> Inl e
            | Inr (tr, successful, failed) \<Rightarrow> Inr (tr @ [Summary successful failed]))"
proof -
  have g: "get (JObj obj) (U ''videos'') (JObj obj) = Inr (JArr vs)"
    using assms(2) by (simp add: dict_get_def)
  from assms(1) show ?thesis
    unfolding collected_in_def
  proof
    assume "fs (U ''grantcardone_videos.json'') = Decoded (JObj obj)"
    with g assms(3) show ?thesis
      unfolding download_collected_videos_def by (simp del: get.simps)
  next
    assume "fs (U ''grantcardone_videos.json'') = Missing
              \<and> fs (U ''found_videos.json'') = Decoded (JObj obj)"
    with g assms(3) show ?thesis
      unfolding download_collected_videos_def by (simp del: get.simps)
  qed
qed

lemma download_collected_closed:
  assumes "collected_in fs (JObj obj)" and "map_of obj (U ''videos'') = Some (JArr vs)" and "vs \<noteq> []"
      and "\<forall>v\<in>set vs. record_ok v"
  shows "download_collected_videos rt fs env =
           Inr (concat (map (\<lambda>(k, v). ie_events rt k v) (enumerate 1 vs))
                @ [Summary
                     (length (filter (\<lambda>(k, v). \<not> is_lesson_link v \<and> ie_succeeds env k v) (enumerate 1 vs)))
                     (length (filter (\<lambda>(k, v). \<not> is_lesson_link v \<and> \<not> ie_succeeds env k v) (enumerate 1 vs)))])"
  unfolding download_collected_decoded [OF assms(1,2,3)] ie_loop_closed [OF assms(4)]
  by simp


lemma ie_events_runs:
  "length (filter is_run (concat (map (\<lambda>(k, v). ie_events rt k v) (enumerate i vs))))
     = length (filter (\<lambda>v. \<not> is_lesson_link v \<and> str_url v) vs)"
  by (induction vs arbitrary: i) (auto simp: ie_events_def)

lemma filter_enumerate_snd:
  "length (filter (\<lambda>(k, v). P v) (enumerate i vs)) = length (filter P vs)"
  by (induction vs arbitrary: i) auto

lemma filter_split_count:
  "length (filter (\<lambda>(k, v). P v \<and> Q k v) xs) + length (filter (\<lambda>(k, v). P v \<and> \<not> Q k v) xs)
     = length (filter (\<lambda>(k, v). P v) xs)"
  by (induction xs) auto

lemma download_video_exit:
  assumes "vi_url video = JStr u"
  shows "download_video ddir video (Exited rc) =
           Inr ([Run (gcd_cmd ddir (vi_filename video) (str_of (vi_url video))) None], rc = 0)"
  using assms by (simp add: download_video_def str_of_def)

lemma download_all_loop_closed:
  assumes "\<forall>v\<in>set videos. \<exists>u. vi_url v = JStr u" and "\<forall>k. \<exists>rc. env k = Exited rc"
  shows "download_all_loop ddir env i videos (tr, s, f) =
           Inr (tr @ concat (map (\<lambda>v. [Run (gcd_cmd ddir (vi_filename v) (str_of (vi_url v))) None, Sleep 1]) videos),
                s + length (filter (\<lambda>k. env k = Exited 0) [i..<i + length videos]),
                f + length (filter (\<lambda>k. env k \<noteq> Exited 0) [i..<i + length videos]))"
  using assms(1)
proof (induction videos arbitrary: i tr s f)
  case Nil
  show ?case by simp
next
  case (Cons v videos)
  from Cons.prems obtain u where u: "vi_url v = JStr u" by auto
  from Cons.prems have rest: "\<forall>v\<in>set videos. \<exists>u. vi_url v = JStr u" by simp
  from assms(2) obtain rc where rc: "env i = Exited rc" by blast
  have up: "[i..<i + length (v # videos)] = i # [Suc i..<Suc i + length videos]"
    by (simp add: upt_rec)
  show ?case
    unfolding up
    by (simp add: rc download_video_exit [OF u] Cons.IH [OF rest])
qed

lemma gcd_runs:
  "length (filter is_run (concat (map (\<lambda>v. [Run (c v) None, Sleep 1]) videos))) = length videos"
  by (induction videos) auto

lemma adv_loop_closed:
  assumes "\<forall>v\<in>set videos. \<exists>u. av_url v = JStr u"
  shows "adv_loop rt ua auth env i videos tr =
           tr @ concat (map (\<lambda>v. [Run (adv_cmd rt ua auth v (str_of (av_url v))) (Some 300),
                                   SleepUniform 2 5]) videos)"
  using assms
proof (induction videos arbitrary: i tr)
  case Nil
  show ?case by simp
next
  case (Cons v videos)
  from Cons.prems obtain u where u: "av_url v = JStr u" by auto
  from Cons.prems have rest: "\<forall>v\<in>set videos. \<exists>u. av_url v = JStr u" by simp
  show ?case
    by (simp add: Cons.IH [OF rest] adv_step_def u str_of_def)
qed

lemma has_format_gcd: "has_format (gcd_cmd ddir filename url)"
  by (simp add: gcd_cmd_def)

lemma has_format_ie: "has_format (ie_cmd output_path url)"
  by (simp add: ie_cmd_def)

lemma has_format_adv: "has_format (adv_cmd rt ua auth video url)"
  by (simp add: adv_cmd_def Let_def)



lemma collected_in_videos_file: "collected_in (videos_file vs) (JObj [(U ''videos'', JArr vs)])"
  by (simp add: collected_in_def videos_file_def)

lemma video_data_in_videos_file: "video_data_in (videos_file vs) (JObj [(U ''videos'', JArr vs)])"
  by (simp add: video_data_in_def videos_file_def)

lemma example_video_facts:
  "record_ok (JObj example_video)" "\<not> is_lesson_link (JObj example_video)"
  "str_url (JObj example_video)" "url_of (JObj example_video) = JStr (U ''http://x/a.mp4'')"
  "title_of i (JObj example_video) = U ''A''"
  by (simp_all add: record_ok_def title_ok_def has_url_def is_lesson_link_def str_url_def
        url_of_def title_of_def example_video_def dict_get_def)

lemma example_lesson_facts:
  "record_ok (JObj example_lesson)" "is_lesson_link (JObj example_lesson)"
  by (simp_all add: record_ok_def title_ok_def has_url_def is_lesson_link_def
        example_lesson_def dict_get_def)

text \<open>
  C3 (as the code has it). Every \<open>yt-dlp\<close> command holds the format selector.
  \<open>download_all_videos\<close> runs one command per record, without timeout, each followed by
  a pause of 1 s; \<open>download_collected_videos\<close> runs one command with a timeout of
  300 s followed by a pause of 2 s for each record that is not a lesson link (and whose
  url is a string), and nothing for a lesson link; \<open>download_videos\<close> of
  \<open>advanced_extractor.py\<close> runs one command per record with a timeout of 300 s, each
  followed by a random pause between 2 and 5 s.
\<close>

theorem ytdlp_invocations:
  assumes "infos \<noteq> []" and "\<forall>v\<in>set infos. \<exists>u. vi_url v = JStr u" and "\<forall>k. \<exists>rc. env k = Exited rc"
      and "collected_in fs (JObj obj)" and "map_of obj (U ''videos'') = Some (JArr vs)"
      and "vs \<noteq> []" and "\<forall>v\<in>set vs. record_ok v"
      and "avs \<noteq> []" and "\<forall>v\<in>set avs. \<exists>u. av_url v = JStr u"
  shows "(\<exists>s f. download_all_videos ddir env infos =
            Inr (concat (map (\<lambda>v. [Run (gcd_cmd ddir (vi_filename v) (str_of (vi_url v))) None, Sleep 1]) infos)
                 @ [Summary s f]))
         \<and> (\<exists>s f. download_collected_videos rt fs env2 =
            Inr (concat (map (\<lambda>(k, v). ie_events rt k v) (enumerate 1 vs)) @ [Summary s f]))
         \<and> download_videos rt ua auth env3 avs =
            concat (map (\<lambda>v. [Run (adv_cmd rt ua auth v (str_of (av_url v))) (Some 300),
                               SleepUniform 2 5]) avs)
         \<and> has_format (gcd_cmd ddir filename url)
         \<and> has_format (ie_cmd output_path url)
         \<and> has_format (adv_cmd rt ua auth video url)"
proof -
  have 1: "\<exists>s f. download_all_videos ddir env infos =
            Inr (concat (map (\<lambda>v. [Run (gcd_cmd ddir (vi_filename v) (str_of (vi_url v))) None, Sleep 1]) infos)
                 @ [Summary s f])"
    using assms(1) unfolding download_all_videos_def download_all_loop_closed [OF assms(2,3)]
    by simp
  have 2: "\<exists>s f. download_collected_videos rt fs env2 =
            Inr (concat (map (\<lambda>(k, v). ie_events rt k v) (enumerate 1 vs)) @ [Summary s f])"
    unfolding download_collected_closed [OF assms(4,5,6,7)] by blast
  have 3: "download_videos rt ua auth env3 avs =
            concat (map (\<lambda>v. [Run (adv_cmd rt ua auth v (str_of (av_url v))) (Some 300),
                               SleepUniform 2 5]) avs)"
    using assms(8) unfolding download_videos_def adv_loop_closed [OF assms(9)] by simp
  from 1 2 3 has_format_gcd has_format_ie has_format_adv show ?thesis by blast
qed

theorem ytdlp_invocations_witness:
  "vi_url example_info = JStr (U ''http://x/a.mp4'')
   \<and> (\<forall>k. \<exists>rc. (\<lambda>k. Exited 0) k = Exited rc)
   \<and> collected_in (videos_file [JObj example_video, JObj example_lesson])
        (JObj [(U ''videos'', JArr [JObj example_video, JObj example_lesson])])
   \<and> record_ok (JObj example_video) \<and> record_ok (JObj example_lesson)
   \<and> av_url example_adv = JStr (U ''http://x/a.mp4'')
   \<and> (\<exists>s f. download_all_videos (U ''./grant-cardone-videos'') (\<lambda>k. Exited 0) [example_info] =
         Inr ([Run (gcd_cmd (U ''./grant-cardone-videos'') (U ''001-A'') (U ''http://x/a.mp4'')) None,
               Sleep 1] @ [Summary s f]))
   \<and> (\<exists>s f. download_collected_videos ascii_runtime
                (videos_file [JObj example_video, JObj example_lesson]) (\<lambda>k. TimedOut) =
         Inr ([Run (ie_cmd (U ''./grant-cardone-downloads/001-A.%(ext)s'') (U ''http://x/a.mp4'')) (Some 300),
               Sleep 2] @ [Summary s f]))"
proof -
  have h2: "\<forall>v\<in>set [example_info]. \<exists>u. vi_url v = JStr u"
    by (simp add: example_info_def)
  have h3: "\<forall>k. \<exists>rc. (\<lambda>k. Exited 0) k = Exited rc" by simp
  have h5: "map_of [(U ''videos'', JArr [JObj example_video, JObj example_lesson])] (U ''videos'')
              = Some (JArr [JObj example_video, JObj example_lesson])" by simp
  have h7: "\<forall>v\<in>set [JObj example_video, JObj example_lesson]. record_ok v"
    by (simp add: example_video_facts example_lesson_facts)
  have h9: "\<forall>v\<in>set [example_adv]. \<exists>u. av_url v = JStr u"
    by (simp add: example_adv_def)
  have p: "ie_output_path ascii_runtime (Suc 0) (JObj example_video) = U ''./grant-cardone-downloads/001-A.%(ext)s''"
    by (simp add: ie_output_path_def filename_of_def example_video_facts fmt03d_1 path_join_def
          download_dir_def sanitize_eval)
  have e: "concat (map (\<lambda>(k, v). ie_events ascii_runtime k v)
                    (enumerate 1 [JObj example_video, JObj example_lesson]))
           = [Run (ie_cmd (U ''./grant-cardone-downloads/001-A.%(ext)s'') (U ''http://x/a.mp4'')) (Some 300),
              Sleep 2]"
    using p by (simp add: ie_events_def example_video_facts example_lesson_facts str_of_def)
  have i: "concat (map (\<lambda>v. [Run (gcd_cmd (U ''./grant-cardone-videos'') (vi_filename v) (str_of (vi_url v))) None, Sleep 1])
                    [example_info])
           = [Run (gcd_cmd (U ''./grant-cardone-videos'') (U ''001-A'') (U ''http://x/a.mp4'')) None, Sleep 1]"
    by (simp add: example_info_def str_of_def)
  from ytdlp_invocations [OF _ h2 h3 collected_in_videos_file h5 _ h7 _ h9,
         of "U ''./grant-cardone-videos''" ascii_runtime "\<lambda>k. TimedOut"]
  have "(\<exists>s f. download_all_videos (U ''./grant-cardone-videos'') (\<lambda>k. Exited 0) [example_info] =
            Inr ([Run (gcd_cmd (U ''./grant-cardone-videos'') (U ''001-A'') (U ''http://x/a.mp4'')) None,
               Sleep 1] @ [Summary s f]))
        \<and> (\<exists>s f. download_collected_videos ascii_runtime
                (videos_file [JObj example_video, JObj example_lesson]) (\<lambda>k. TimedOut) =
         Inr ([Run (ie_cmd (U ''./grant-cardone-downloads/001-A.%(ext)s'') (U ''http://x/a.mp4'')) (Some 300),
               Sleep 2] @ [Summary s f]))"
    unfolding e i by simp
  with h3 collected_in_videos_file example_video_facts(1) example_lesson_facts(1)
  show ?thesis by (simp add: example_info_def example_adv_def)
qed

text \<open>Three runs that the claim as stated excludes: a command without timeout, a
  record without command, and a pause that is not fixed.\<close>

theorem ytdlp_invocations_counterexample:
  "download_all_videos (U ''./grant-cardone-videos'') (\<lambda>k. Exited 0) [example_info] =
     Inr [Run (gcd_cmd (U ''./grant-cardone-videos'') (U ''001-A'') (U ''http://x/a.mp4'')) None,
          Sleep 1, Summary 1 0]
   \<and> download_collected_videos ascii_runtime (videos_file [JObj example_lesson]) (\<lambda>k. Exited 0) =
     Inr [Summary 0 0]
   \<and> download_videos ascii_runtime (U ''Mozilla/5.0'') [] (\<lambda>k. Exited 0) [example_adv] =
     [Run (adv_cmd ascii_runtime (U ''Mozilla/5.0'') [] example_adv (U ''http://x/a.mp4'')) (Some 300),
      SleepUniform 2 5]"
proof -
  have 1: "download_all_videos (U ''./grant-cardone-videos'') (\<lambda>k. Exited 0) [example_info] =
     Inr [Run (gcd_cmd (U ''./grant-cardone-videos'') (U ''001-A'') (U ''http://x/a.mp4'')) None,
          Sleep 1, Summary 1 0]"
    by (simp add: download_all_videos_def download_video_def example_info_def)
  have ok: "\<forall>v\<in>set [JObj example_lesson]. record_ok v"
    by (simp add: example_lesson_facts)
  have h: "map_of [(U ''videos'', JArr [JObj example_lesson])] (U ''videos'') = Some (JArr [JObj example_lesson])"
    by simp
  have nn: "[JObj example_lesson] \<noteq> []" by simp
  have 2: "download_collected_videos ascii_runtime (videos_file [JObj example_lesson]) (\<lambda>k. Exited 0) =
     Inr [Summary 0 0]"
    unfolding download_collected_closed [OF collected_in_videos_file h nn ok]
    by (simp add: ie_events_def example_lesson_facts)
  have 3: "download_videos ascii_runtime (U ''Mozilla/5.0'') [] (\<lambda>k. Exited 0) [example_adv] =
     [Run (adv_cmd ascii_runtime (U ''Mozilla/5.0'') [] example_adv (U ''http://x/a.mp4'')) (Some 300),
      SleepUniform 2 5]"
    by (simp add: download_videos_def adv_step_def example_adv_def)
  from 1 2 3 show ?thesis by blast
qed


text \<open>
  C5. In \<open>download_collected_videos\<close> every command that does not exit with 0 (a
  non-zero exit, a timeout, any other exception) adds one to \<open>failed\<close>, whatever the
  other commands do, and every downloadable record still gets its command. In
  \<open>download_all_videos\<close>, whose commands run without timeout, every non-zero exit adds
  one to \<open>failed_downloads\<close> and every record gets its command.
\<close>

theorem failures_counted_loop_continues:
  assumes "collected_in fs (JObj obj)" and "map_of obj (U ''videos'') = Some (JArr vs)"
      and "vs \<noteq> []" and "\<forall>v\<in>set vs. record_ok v"
      and "infos \<noteq> []" and "\<forall>v\<in>set infos. \<exists>u. vi_url v = JStr u" and "\<forall>k. \<exists>rc. env2 k = Exited rc"
  shows "(\<exists>tr s. download_collected_videos rt fs env =
            Inr (tr @ [Summary s (length (filter (\<lambda>(k, v). \<not> is_lesson_link v \<and> \<not> ie_succeeds env k v)
                                           (enumerate 1 vs)))])
            \<and> length (filter is_run tr) = length (filter (\<lambda>v. \<not> is_lesson_link v \<and> str_url v) vs))
         \<and> (\<exists>tr s. download_all_videos ddir env2 infos =
            Inr (tr @ [Summary s (length (filter (\<lambda>k. env2 k \<noteq> Exited 0) [1..<1 + length infos]))])
            \<and> length (filter is_run tr) = length infos)"
proof -
  have 1: "\<exists>tr s. download_collected_videos rt fs env =
            Inr (tr @ [Summary s (length (filter (\<lambda>(k, v). \<not> is_lesson_link v \<and> \<not> ie_succeeds env k v)
                                           (enumerate 1 vs)))])
            \<and> length (filter is_run tr) = length (filter (\<lambda>v. \<not> is_lesson_link v \<and> str_url v) vs)"
    unfolding download_collected_closed [OF assms(1,2,3,4)]
    using ie_events_runs [of rt 1 vs] by blast
  have 2: "\<exists>tr s. download_all_videos ddir env2 infos =
            Inr (tr @ [Summary s (length (filter (\<lambda>k. env2 k \<noteq> Exited 0) [1..<1 + length infos]))])
            \<and> length (filter is_run tr) = length infos"
    using assms(5) gcd_runs [of "\<lambda>v. gcd_cmd ddir (vi_filename v) (str_of (vi_url v))" infos]
    unfolding download_all_videos_def download_all_loop_closed [OF assms(6,7)]
    by simp
  from 1 2 show ?thesis by blast
qed

theorem failures_counted_loop_continues_witness:
  "collected_in (videos_file [JObj example_video, JObj example_video])
      (JObj [(U ''videos'', JArr [JObj example_video, JObj example_video])])
   \<and> record_ok (JObj example_video)
   \<and> vi_url example_info = JStr (U ''http://x/a.mp4'')
   \<and> (\<forall>k. \<exists>rc. (\<lambda>k. if k = 1 then Exited 1 else Exited 0) k = Exited rc)
   \<and> (\<exists>tr s. download_collected_videos ascii_runtime
                 (videos_file [JObj example_video, JObj example_video])
                 (\<lambda>k. if k = 1 then TimedOut else Exited 0) = Inr (tr @ [Summary s 1])
              \<and> length (filter is_run tr) = 2)
   \<and> (\<exists>tr s. download_all_videos (U ''./grant-cardone-videos'')
                 (\<lambda>k. if k = 1 then Exited 1 else Exited 0) [example_info, example_info]
               = Inr (tr @ [Summary s 1])
              \<and> length (filter is_run tr) = 2)"
proof -
  have h2: "map_of [(U ''videos'', JArr [JObj example_video, JObj example_video])] (U ''videos'')
              = Some (JArr [JObj example_video, JObj example_video])" by simp
  have h4: "\<forall>v\<in>set [JObj example_video, JObj example_video]. record_ok v"
    by (simp add: example_video_facts)
  have h6: "\<forall>v\<in>set [example_info, example_info]. \<exists>u. vi_url v = JStr u"
    by (simp add: example_info_def)
  have h7: "\<forall>k. \<exists>rc. (\<lambda>k. if k = 1 then Exited 1 else Exited 0) k = Exited rc" by simp
  have c1: "length (filter (\<lambda>(k, v). \<not> is_lesson_link v \<and> \<not> ie_succeeds (\<lambda>k. if k = 1 then TimedOut else Exited 0) k v)
                      (enumerate 1 [JObj example_video, JObj example_video])) = 1"
    by (simp add: example_video_facts ie_succeeds_def)
  have c2: "length (filter (\<lambda>v. \<not> is_lesson_link v \<and> str_url v) [JObj example_video, JObj example_video]) = 2"
    by (simp add: example_video_facts)
  have c3: "length (filter (\<lambda>k. (if k = 1 then Exited 1 else Exited 0) \<noteq> Exited 0)
                      [1..<1 + length [example_info, example_info]]) = 1"
    by (simp add: upt_rec)
  from failures_counted_loop_continues [OF collected_in_videos_file h2 _ h4 _ h6 h7,
         of ascii_runtime "\<lambda>k. if k = 1 then TimedOut else Exited 0" "U ''./grant-cardone-videos''"]
  have "(\<exists>tr s. download_collected_videos ascii_runtime
                 (videos_file [JObj example_video, JObj example_video])
                 (\<lambda>k. if k = 1 then TimedOut else Exited 0) = Inr (tr @ [Summary s 1])
              \<and> length (filter is_run tr) = 2)
   \<and> (\<exists>tr s. download_all_videos (U ''./grant-cardone-videos'')
                 (\<lambda>k. if k = 1 then Exited 1 else Exited 0) [example_info, example_info]
               = Inr (tr @ [Summary s 1])
              \<and> length (filter is_run tr) = 2)"
    unfolding c1 c2 c3 by (simp add: numeral_2_eq_2)
  with collected_in_videos_file example_video_facts(1) h7 show ?thesis
    by (simp add: example_info_def)
qed

text \<open>
  C10. A lesson link leaves its iteration of \<open>download_collected_videos\<close> without a
  command and without a count; so with at least one lesson link among the records the
  two counters of the summary add up to the number of the other records, which is less
  than the number of records.
\<close>

theorem lesson_links_not_counted:
  assumes "collected_in fs (JObj obj)" and "map_of obj (U ''videos'') = Some (JArr vs)"
      and "\<forall>v\<in>set vs. record_ok v" and "\<exists>v\<in>set vs. is_lesson_link v"
  shows "(\<forall>v\<in>set vs. is_lesson_link v \<longrightarrow> (\<forall>oc i. ie_step rt oc i v = Inr ([], 0, 0)))
         \<and> (\<exists>tr s f. download_collected_videos rt fs env = Inr (tr @ [Summary s f])
               \<and> s + f = length (filter (\<lambda>v. \<not> is_lesson_link v) vs)
               \<and> s + f < length vs)"
proof -
  from assms(4) have ne: "vs \<noteq> []" by auto
  have 1: "\<forall>v\<in>set vs. is_lesson_link v \<longrightarrow> (\<forall>oc i. ie_step rt oc i v = Inr ([], 0, 0))"
    using assms(3) by (auto simp: ie_step_record_ok ie_events_def)
  let ?s = "length (filter (\<lambda>(k, v). \<not> is_lesson_link v \<and> ie_succeeds env k v) (enumerate 1 vs))"
  let ?f = "length (filter (\<lambda>(k, v). \<not> is_lesson_link v \<and> \<not> ie_succeeds env k v) (enumerate 1 vs))"
  have sum: "?s + ?f = length (filter (\<lambda>v. \<not> is_lesson_link v) vs)"
    using filter_split_count [of "\<lambda>v. \<not> is_lesson_link v" "ie_succeeds env" "enumerate 1 vs"]
      filter_enumerate_snd [of "\<lambda>v. \<not> is_lesson_link v" 1 vs]
    by simp
  from assms(4) obtain w where "w \<in> set vs" and "is_lesson_link w" by blast
  then have "length (filter (\<lambda>v. \<not> is_lesson_link v) vs) < length vs"
    using length_filter_less [of w vs "\<lambda>v. \<not> is_lesson_link v"] by simp
  with sum have lt: "?s + ?f < length vs" by simp
  have "download_collected_videos rt fs env =
          Inr (concat (map (\<lambda>(k, v). ie_events rt k v) (enumerate 1 vs)) @ [Summary ?s ?f])"
    by (rule download_collected_closed [OF assms(1,2) ne assms(3)])
  with sum lt have 2: "\<exists>tr s f. download_collected_videos rt fs env = Inr (tr @ [Summary s f])
               \<and> s + f = length (filter (\<lambda>v. \<not> is_lesson_link v) vs)
               \<and> s + f < length vs"
    by blast
  from 1 2 show ?thesis by blast
qed

theorem lesson_links_not_counted_witness:
  "collected_in (videos_file [JObj example_video, JObj example_lesson])
      (JObj [(U ''videos'', JArr [JObj example_video, JObj example_lesson])])
   \<and> record_ok (JObj example_video) \<and> record_ok (JObj example_lesson)
   \<and> is_lesson_link (JObj example_lesson)
   \<and> ie_step ascii_runtime (Exited 0) 2 (JObj example_lesson) = Inr ([], 0, 0)
   \<and> (\<exists>tr s f. download_collected_videos ascii_runtime
                   (videos_file [JObj example_video, JObj example_lesson]) (\<lambda>k. Exited 0)
                 = Inr (tr @ [Summary s f])
               \<and> s + f = 1 \<and> s + f < 2)"
proof -
  have h2: "map_of [(U ''videos'', JArr [JObj example_video, JObj example_lesson])] (U ''videos'')
              = Some (JArr [JObj example_video, JObj example_lesson])" by simp
  have h3: "\<forall>v\<in>set [JObj example_video, JObj example_lesson]. record_ok v"
    by (simp add: example_video_facts example_lesson_facts)
  have h4: "\<exists>v\<in>set [JObj example_video, JObj example_lesson]. is_lesson_link v"
    by (simp add: example_lesson_facts)
  have c: "length (filter (\<lambda>v. \<not> is_lesson_link v) [JObj example_video, JObj example_lesson]) = 1"
    by (simp add: example_video_facts example_lesson_facts)
  from lesson_links_not_counted [OF collected_in_videos_file h2 h3 h4, of ascii_runtime "\<lambda>k. Exited 0"]
  have "ie_step ascii_runtime (Exited 0) 2 (JObj example_lesson) = Inr ([], 0, 0)
        \<and> (\<exists>tr s f. download_collected_videos ascii_runtime
                   (videos_file [JObj example_video, JObj example_lesson]) (\<lambda>k. Exited 0)
                 = Inr (tr @ [Summary s f])
               \<and> s + f = 1 \<and> s + f < 2)"
    unfolding c using example_lesson_facts(2) by (simp add: numeral_2_eq_2)
  with collected_in_videos_file example_video_facts(1) example_lesson_facts show ?thesis by simp
qed

subsection \<open>Records without a URL\<close>

lemma src_of_simps:
  "src_of (JObj d) = dict_get d (U ''src'') (JStr [])"
  "src_of JNull = JNull" "src_of (JBool b) = JNull" "src_of (JNum n) = JNull"
  "src_of (JStr s) = JNull" "src_of (JArr xs) = JNull"
  by (simp_all add: src_of_def)

lemma process_items_closed:
  assumes "\<forall>item\<in>set items. item_ok item"
  shows "\<exists>out. process_items rt items acc = Inr (acc @ out)
               \<and> map vi_url out = filter truthy (map src_of items)"
  using assms
proof (induction items arbitrary: acc)
  case Nil
  show ?case by simp
next
  case (Cons item items)
  from Cons.prems have rest: "\<forall>item\<in>set items. item_ok item" by simp
  show ?case
  proof (cases item)
    case (JObj d)
    with Cons.prems have "title_ok (JObj d)" by (simp add: item_ok_def)
    from title_ok_get [OF this, of "length acc + 1"]
    have t: "dict_get d (U ''title'') (JStr (U ''Video '' @ dec (length acc + 1)))
               = JStr (title_of (length acc + 1) (JObj d))" by simp
    show ?thesis
    proof (cases "truthy (dict_get d (U ''src'') (JStr []))")
      case True
      let ?r = "\<lparr>vi_title = title_of (length acc + 1) (JObj d),
                 vi_filename = fmt03d (length acc + 1) @ U ''-'' @ safe_title rt (title_of (length acc + 1) (JObj d)),
                 vi_url = dict_get d (U ''src'') (JStr []),
                 vi_type = dict_get d (U ''type'') (JStr (U ''unknown''))\<rparr>"
      from Cons.IH [OF rest, of "acc @ [?r]"] obtain out where
        o: "process_items rt items (acc @ [?r]) = Inr ((acc @ [?r]) @ out)"
           "map vi_url out = filter truthy (map src_of items)" by blast
      have "process_items rt (item # items) acc = Inr (acc @ (?r # out))"
        unfolding JObj process_items.simps t using True o(1) by (simp add: Let_def)
      moreover have "map vi_url (?r # out) = filter truthy (map src_of (item # items))"
        using True o(2) JObj by (simp add: src_of_simps(1) [simplified])
      ultimately show ?thesis by blast
    next
      case False
      from Cons.IH [OF rest, of acc] obtain out where
        o: "process_items rt items acc = Inr (acc @ out)"
           "map vi_url out = filter truthy (map src_of items)" by blast
      have "process_items rt (item # items) acc = Inr (acc @ out)"
        unfolding JObj process_items.simps t using False o(1) by (simp add: Let_def)
      moreover have "map vi_url out = filter truthy (map src_of (item # items))"
        using False o(2) JObj by (simp add: src_of_simps(1) [simplified])
      ultimately show ?thesis by blast
    qed
  qed (use Cons.IH [OF rest, of acc] in \<open>auto simp: src_of_simps\<close>)
qed

lemma ie_step_KeyError:
  assumes "title_ok video" and "\<not> has_url video"
  shows "ie_step rt oc i video = Inl KeyError"
proof -
  from title_ok_get [OF assms(1), of i] obtain d where
    d: "video = JObj d" and t: "dict_get d (U ''title'') (JStr (U ''Video '' @ dec i)) = JStr (title_of i video)"
    by blast
  have g: "get video (U ''title'') (JStr (U ''Video '' @ dec i)) = Inr (JStr (title_of i video))"
    using d t by simp
  have u: "subscript video (U ''url'') = Inl KeyError"
    using has_url_subscript [OF d] assms(2) by simp
  show ?thesis unfolding ie_step_def g u by simp
qed

lemma ie_loop_KeyError:
  assumes "\<forall>v\<in>set vs. title_ok v" and "\<exists>v\<in>set vs. \<not> has_url v"
  shows "ie_loop rt env i vs (tr, s, f) = Inl KeyError"
  using assms
proof (induction vs arbitrary: i tr s f)
  case Nil
  then show ?case by simp
next
  case (Cons v vs)
  from Cons.prems have tk: "title_ok v" and rest: "\<forall>v\<in>set vs. title_ok v" by simp_all
  show ?case
  proof (cases "has_url v")
    case True
    with tk have ok: "record_ok v" by (simp add: record_ok_def)
    from True Cons.prems(2) have ex: "\<exists>v\<in>set vs. \<not> has_url v" by auto
    show ?thesis
      by (simp add: ie_step_record_ok [OF ok] Cons.IH [OF rest ex])
  next
    case False
    show ?thesis by (simp add: ie_step_KeyError [OF tk False])
  qed
qed

text \<open>
  C6 (as the code has it). \<open>process_video_data\<close> drops the items that are not dicts
  and the dicts whose \<open>src\<close> is absent, empty or otherwise false, and keeps one record
  for each of the others. The two download loops do not skip: with a record that has
  no \<open>url\<close> key they end in \<open>KeyError\<close>, and \<open>QuickStart.download_with_aria2c\<close> writes
  the lines of a record whose \<open>url\<close> is the empty string like any other.
\<close>

theorem missing_url_handling:
  assumes "\<forall>item\<in>set items. item_ok item"
      and "\<forall>v\<in>set vs. title_ok v" and "\<exists>v\<in>set vs. \<not> has_url v"
      and "map_of obj (U ''videos'') = Some (JArr vs)"
      and "video_data_in fs (JObj obj)" and "collected_in fs2 (JObj obj)"
      and "title_ok (JObj d)" and "map_of d (U ''url'') = Some (JStr [])"
  shows "(\<exists>out. process_video_data rt (JArr items) = Inr out
            \<and> map vi_url out = filter truthy (map src_of items))
         \<and> qs_download_with_aria2c rt fs aria = Inl KeyError
         \<and> download_collected_videos rt fs2 env = Inl KeyError
         \<and> qs_entry rt i (JObj d) =
             Inr (unlines [[], U ''  out='' @ filename_of rt i (JObj d) @ U ''.%(ext)s'', []])"
proof -
  from assms(3) have ne: "vs \<noteq> []" by auto
  have 1: "\<exists>out. process_video_data rt (JArr items) = Inr out
            \<and> map vi_url out = filter truthy (map src_of items)"
    using process_items_closed [OF assms(1), of rt "[]"] by (simp add: process_video_data_def)
  have 2: "qs_download_with_aria2c rt fs aria = Inl KeyError"
    unfolding qs_download_decoded [OF assms(5,4) ne] qs_loop_KeyError [OF assms(2,3)] by simp
  have 3: "download_collected_videos rt fs2 env = Inl KeyError"
    unfolding download_collected_decoded [OF assms(6,4) ne] ie_loop_KeyError [OF assms(2,3)] by simp
  have hu: "has_url (JObj d)" using assms(8) by (simp add: has_url_def)
  have "url_of (JObj d) = JStr []" using assms(8) by (simp add: url_of_def)
  then have 4: "qs_entry rt i (JObj d) =
             Inr (unlines [[], U ''  out='' @ filename_of rt i (JObj d) @ U ''.%(ext)s'', []])"
    unfolding qs_entry_title_ok [OF assms(7)] using hu by (simp add: aria_lines_def)
  from 1 2 3 4 show ?thesis by blast
qed


theorem missing_url_handling_witness:
  "item_ok (JObj [(U ''src'', JStr (U ''http://x/a.mp4'')), (U ''title'', JStr (U ''A''))])
   \<and> item_ok (JObj [(U ''title'', JStr (U ''B''))]) \<and> item_ok (JNum 3)
   \<and> title_ok (JObj [(U ''title'', JStr (U ''A''))])
   \<and> \<not> has_url (JObj [(U ''title'', JStr (U ''A''))])
   \<and> video_data_in (videos_file [JObj [(U ''title'', JStr (U ''A''))]])
        (JObj [(U ''videos'', JArr [JObj [(U ''title'', JStr (U ''A''))]])])
   \<and> (\<exists>out. process_video_data ascii_runtime
                (JArr [JObj [(U ''src'', JStr (U ''http://x/a.mp4'')), (U ''title'', JStr (U ''A''))],
                       JObj [(U ''title'', JStr (U ''B''))], JNum 3]) = Inr out
             \<and> map vi_url out = [JStr (U ''http://x/a.mp4'')])
   \<and> qs_download_with_aria2c ascii_runtime (videos_file [JObj [(U ''title'', JStr (U ''A''))]]) (Exited 0)
       = Inl KeyError
   \<and> download_collected_videos ascii_runtime (videos_file [JObj [(U ''title'', JStr (U ''A''))]])
        (\<lambda>k. Exited 0) = Inl KeyError"
proof -
  let ?i1 = "JObj [(U ''src'', JStr (U ''http://x/a.mp4'')), (U ''title'', JStr (U ''A''))]"
  let ?i2 = "JObj [(U ''title'', JStr (U ''B''))]"
  let ?v = "JObj [(U ''title'', JStr (U ''A''))]"
  let ?d = "[(U ''url'', JStr [])]"
  have i: "item_ok ?i1" "item_ok ?i2" "item_ok (JNum 3)"
    by (simp_all add: item_ok_def title_ok_def)
  have h1: "\<forall>item\<in>set [?i1, ?i2, JNum 3]. item_ok item" using i by simp
  have t: "title_ok ?v" "\<not> has_url ?v" by (simp_all add: title_ok_def has_url_def)
  have h2: "\<forall>v\<in>set [?v]. title_ok v" and h3: "\<exists>v\<in>set [?v]. \<not> has_url v" using t by simp_all
  have h4: "map_of [(U ''videos'', JArr [?v])] (U ''videos'') = Some (JArr [?v])" by simp
  have h7: "title_ok (JObj ?d)" by (simp add: title_ok_def)
  have h8: "map_of ?d (U ''url'') = Some (JStr [])" by simp
  have f: "filter truthy (map src_of [?i1, ?i2, JNum 3]) = [JStr (U ''http://x/a.mp4'')]"
    by (simp add: src_of_def dict_get_def)
  from missing_url_handling [OF h1 h2 h3 h4 video_data_in_videos_file collected_in_videos_file h7 h8,
         of ascii_runtime "Exited 0" "\<lambda>k. Exited 0" 1]
  have "(\<exists>out. process_video_data ascii_runtime (JArr [?i1, ?i2, JNum 3]) = Inr out
             \<and> map vi_url out = [JStr (U ''http://x/a.mp4'')])
        \<and> qs_download_with_aria2c ascii_runtime (videos_file [?v]) (Exited 0) = Inl KeyError
        \<and> download_collected_videos ascii_runtime (videos_file [?v]) (\<lambda>k. Exited 0) = Inl KeyError"
    unfolding f by blast
  with i t video_data_in_videos_file [of "[?v]"] show ?thesis by blast
qed

text \<open>A record \<open>{"title": "A"}\<close> without \<open>url\<close> is not skipped by the download loops:
  both end in \<open>KeyError\<close>.\<close>

theorem missing_url_counterexample:
  "qs_download_with_aria2c ascii_runtime (videos_file [JObj [(U ''title'', JStr (U ''A''))]]) (Exited 0)
     = Inl KeyError
   \<and> download_collected_videos ascii_runtime (videos_file [JObj [(U ''title'', JStr (U ''A''))]])
        (\<lambda>k. Exited 0) = Inl KeyError"
  by (simp add: qs_download_with_aria2c_def download_collected_videos_def videos_file_def
        dict_get_def qs_entry_def ie_step_def)

subsection \<open>Duplicates\<close>

lemma findIndex_bounds: "- 1 \<le> findIndex p xs \<and> findIndex p xs < int (length xs)"
  by (induction xs) (auto simp: Let_def)

lemma findIndex_found:
  assumes "findIndex p xs = int i"
  shows "i < length xs \<and> p (xs ! i)"
  using assms
proof (induction xs arbitrary: i)
  case Nil
  then show ?case by simp
next
  case (Cons x xs)
  show ?case
  proof (cases "p x")
    case True
    with Cons.prems show ?thesis by simp
  next
    case False
    with Cons.prems have r: "findIndex p xs \<ge> 0" and e: "findIndex p xs + 1 = int i"
      by (auto simp: Let_def split: if_splits)
    then obtain j where j: "i = Suc j" "findIndex p xs = int j" by (cases i) auto
    from Cons.IH [OF j(2)] j(1) show ?thesis by simp
  qed
qed

lemma findIndex_exists:
  assumes "x \<in> set xs" and "p x"
  shows "\<exists>i. findIndex p xs = int i"
  using assms
proof (induction xs)
  case Nil
  then show ?case by simp
next
  case (Cons y ys)
  show ?case
  proof (cases "p y")
    case True
    then show ?thesis by simp
  next
    case False
    with Cons.prems have "x \<in> set ys" by auto
    from Cons.IH [OF this Cons.prems(2)] obtain i where "findIndex p ys = int i" by blast
    with False have "findIndex p (y # ys) = int (Suc i)" by (simp add: Let_def)
    then show ?thesis by blast
  qed
qed

lemma remove_duplicates_pairs:
  "(i, v) \<in> set (filter (\<lambda>(index, video). int index = findIndex (\<lambda>w. js_url w = js_url video) vs)
                      (enumerate 0 vs))
   \<longleftrightarrow> i < length vs \<and> v = vs ! i \<and> int i = findIndex (\<lambda>w. js_url w = js_url v) vs"
  by (auto simp: in_set_enumerate_eq)

lemma remove_duplicates_urls:
  "set (map js_url (remove_duplicates vs)) = set (map js_url vs)"
proof
  show "set (map js_url (remove_duplicates vs)) \<subseteq> set (map js_url vs)"
    unfolding remove_duplicates_def by (auto simp: in_set_enumerate_eq)
next
  show "set (map js_url vs) \<subseteq> set (map js_url (remove_duplicates vs))"
  proof
    fix u assume "u \<in> set (map js_url vs)"
    then obtain v where v: "v \<in> set vs" "js_url v = u" by auto
    from findIndex_exists [of v vs "\<lambda>w. js_url w = u"] v
    obtain i where i: "findIndex (\<lambda>w. js_url w = u) vs = int i" by auto
    from findIndex_found [OF i] have b: "i < length vs" and e: "js_url (vs ! i) = u" by simp_all
    have "(i, vs ! i) \<in> set (filter (\<lambda>(index, video). int index = findIndex (\<lambda>w. js_url w = js_url video) vs)
                      (enumerate 0 vs))"
      unfolding remove_duplicates_pairs using b e i by simp
    then have "vs ! i \<in> set (remove_duplicates vs)"
      unfolding remove_duplicates_def by force
    with e show "u \<in> set (map js_url (remove_duplicates vs))" by force
  qed
qed

lemma remove_duplicates_distinct: "distinct (map js_url (remove_duplicates vs))"
proof -
  let ?kept = "filter (\<lambda>(index, video). int index = findIndex (\<lambda>w. js_url w = js_url video) vs)
                 (enumerate 0 vs)"
  have d: "distinct ?kept" by (simp add: distinct_enumerate)
  have inj: "inj_on (\<lambda>p. js_url (snd p)) (set ?kept)"
  proof (rule inj_onI)
    fix a b assume a: "a \<in> set ?kept" and b: "b \<in> set ?kept" and e: "js_url (snd a) = js_url (snd b)"
    obtain i v where av: "a = (i, v)" by (cases a)
    obtain j w where bw: "b = (j, w)" by (cases b)
    from a av have 1: "i < length vs" "v = vs ! i" "int i = findIndex (\<lambda>x. js_url x = js_url v) vs"
      using remove_duplicates_pairs [of i v vs] by simp_all
    from b bw have 2: "j < length vs" "w = vs ! j" "int j = findIndex (\<lambda>x. js_url x = js_url w) vs"
      using remove_duplicates_pairs [of j w vs] by simp_all
    from e av bw have "js_url v = js_url w" by simp
    with 1(3) 2(3) have "i = j" by simp
    with 1(2) 2(2) av bw show "a = b" by simp
  qed
  have "distinct (map (\<lambda>p. js_url (snd p)) ?kept)"
    using d inj by (simp add: distinct_map)
  then show ?thesis
    by (simp add: remove_duplicates_def comp_def)
qed

lemma remove_duplicates_pair:
  assumes "js_url a \<noteq> js_url b"
  shows "remove_duplicates [a, b] = [a, b]"
  using assms by (simp add: remove_duplicates_def enumerate_eq_zip)

text \<open>
  C7. The filter of the browser script keeps, of the records found, one record for each
  URL string (a different string is a different URL: two records whose URLs differ in
  any character are both kept), and the Python download path writes the lines of every
  record it is given, equal URLs included.
\<close>

theorem dedup_by_exact_url:
  assumes "video_data_in fs (JObj obj)" and "map_of obj (U ''videos'') = Some (JArr vs)"
      and "vs \<noteq> []" and "\<forall>v\<in>set vs. record_ok v"
  shows "(js_url a \<noteq> js_url b \<longrightarrow> remove_duplicates [a, b] = [a, b])
         \<and> set (map js_url (remove_duplicates pageVideos)) = set (map js_url pageVideos)
         \<and> distinct (map js_url (remove_duplicates pageVideos))
         \<and> (\<exists>report. qs_download_with_aria2c rt fs aria =
               Inr [WriteFile (U ''aria2_downloads.txt'')
                      (concat (map (\<lambda>(k, v). aria_lines rt [] k v) (enumerate 1 vs))),
                    Run qs_cmd None, Print report])"
proof -
  have "\<exists>report. qs_download_with_aria2c rt fs aria =
           Inr [WriteFile (U ''aria2_downloads.txt'')
                  (concat (map (\<lambda>(k, v). aria_lines rt [] k v) (enumerate 1 vs))),
                Run qs_cmd None, Print report]"
    unfolding qs_download_decoded [OF assms(1,2,3)] qs_loop_closed [OF assms(4)]
    by (cases aria) simp_all
  with remove_duplicates_pair [of a b] remove_duplicates_urls [of pageVideos]
    remove_duplicates_distinct [of pageVideos]
  show ?thesis by blast
qed

theorem dedup_by_exact_url_witness:
  "video_data_in (videos_file [JObj example_video, JObj example_video])
     (JObj [(U ''videos'', JArr [JObj example_video, JObj example_video])])
   \<and> record_ok (JObj example_video)
   \<and> js_url (example_js (U ''http://x/a.mp4'')) \<noteq> js_url (example_js (U ''http://x/a.mp4?''))
   \<and> remove_duplicates [example_js (U ''http://x/a.mp4''), example_js (U ''http://x/a.mp4?'')]
       = [example_js (U ''http://x/a.mp4''), example_js (U ''http://x/a.mp4?'')]
   \<and> (\<exists>report. qs_download_with_aria2c ascii_runtime
                   (videos_file [JObj example_video, JObj example_video]) (Exited 0) =
         Inr [WriteFile (U ''aria2_downloads.txt'')
                (unlines [U ''http://x/a.mp4'', U ''  out=001-A.%(ext)s'', [],
                          U ''http://x/a.mp4'', U ''  out=002-A.%(ext)s'', []]),
              Run qs_cmd None, Print report])"
proof -
  have h2: "map_of [(U ''videos'', JArr [JObj example_video, JObj example_video])] (U ''videos'')
              = Some (JArr [JObj example_video, JObj example_video])" by simp
  have h4: "\<forall>v\<in>set [JObj example_video, JObj example_video]. record_ok v"
    by (simp add: example_video_facts)
  have n: "js_url (example_js (U ''http://x/a.mp4'')) \<noteq> js_url (example_js (U ''http://x/a.mp4?''))"
    by (simp add: example_js_def)
  have f2: "fmt03d (Suc (Suc 0)) = U ''002''"
    by (simp add: fmt03d_def dec.simps numeral_3_eq_3)
  have s: "safe_title ascii_runtime (U ''A'') = U ''A''"
    by (simp add: sanitize_eval)
  have c: "concat (map (\<lambda>(k, v). aria_lines ascii_runtime [] k v)
                    (enumerate 1 [JObj example_video, JObj example_video]))
           = unlines [U ''http://x/a.mp4'', U ''  out=001-A.%(ext)s'', [],
                      U ''http://x/a.mp4'', U ''  out=002-A.%(ext)s'', []]"
    using s by (simp add: aria_lines_def filename_of_def example_video_facts fmt03d_1 f2 unlines_def)
  from dedup_by_exact_url [OF video_data_in_videos_file h2 _ h4,
         of "example_js (U ''http://x/a.mp4'')" "example_js (U ''http://x/a.mp4?'')" "[]"
            ascii_runtime "Exited 0"] n
  have "remove_duplicates [example_js (U ''http://x/a.mp4''), example_js (U ''http://x/a.mp4?'')]
       = [example_js (U ''http://x/a.mp4''), example_js (U ''http://x/a.mp4?'')]
   \<and> (\<exists>report. qs_download_with_aria2c ascii_runtime
                   (videos_file [JObj example_video, JObj example_video]) (Exited 0) =
         Inr [WriteFile (U ''aria2_downloads.txt'')
                (unlines [U ''http://x/a.mp4'', U ''  out=001-A.%(ext)s'', [],
                          U ''http://x/a.mp4'', U ''  out=002-A.%(ext)s'', []]),
              Run qs_cmd None, Print report])"
    unfolding c by simp
  with n video_data_in_videos_file [of "[JObj example_video, JObj example_video]"] example_video_facts(1)
  show ?thesis by blast
qed

subsection \<open>Further facts about the sanitizer and the collected file\<close>

text \<open>A sanitized title holds hyphens and characters of the title only; of an ASCII
  title, letters, digits, underscores and hyphens.\<close>

lemma safe_title_from_title:
  assumes "c \<in> set (safe_title rt title)"
  shows "c = hyphen \<or> c \<in> set title"
proof -
  from assms have "c = hyphen \<or> (c \<in> set (strip (strip_bad rt title)) \<and> \<not> is_sep c)"
    unfolding safe_title_def by (rule collapse_chars)
  then show ?thesis using set_strip [of "strip_bad rt title"] by (auto simp: strip_bad_def)
qed

lemma safe_title_ascii_charset:
  assumes "\<forall>c\<in>set title. c < 128" and "c \<in> set (safe_title rt title)"
  shows "ascii_alnum c \<or> c = underscore \<or> c = hyphen"
proof -
  from safe_title_from_title [OF assms(2)] assms(1) have "c < 128" by auto
  with safe_title_chars [OF assms(2)] show ?thesis
    by (auto simp: is_word_def)
qed

text \<open>An alphanumeric code point beyond ASCII is kept.\<close>

lemma safe_title_keeps_alnum:
  assumes "128 \<le> c" and "uni_alnum rt c" and "\<not> is_space c"
  shows "safe_title rt [c] = [c]"
proof -
  from assms(1) have "c \<noteq> hyphen" by simp
  with assms show ?thesis
    by (simp add: safe_title_def strip_bad_def strip_def is_word_def is_sep_def)
qed

text \<open>\<open>download_collected_videos\<close> reads \<open>data.get('videos', data)\<close>: a file that holds
  the bare list of records, as the browser script prints it, ends in
  \<open>AttributeError\<close>.\<close>

lemma download_collected_bare_list:
  assumes "collected_in fs (JArr vs)"
  shows "download_collected_videos rt fs env = Inl AttributeError"
  using assms unfolding collected_in_def download_collected_videos_def by auto

end
